theory Spec2Isabelle
  imports Main "HOL-Library.Sublist" "HOL-Library.Char_ord" "HOL-Library.List_Lexorder" "HOL-Library.AList"
begin

section \<open>gitjoin: the reconciliation engine of \<open>internal/lib\<close>\<close>

text \<open>
  A shallow embedding of \<open>internal/lib/types.go\<close>, \<open>internal/lib/git.go\<close> and
  \<open>internal/lib/sync.go\<close>. The file \<open>sync.go\<close> holds two listings of the package file:
  the first (lines 1-401) synchronises through \<open>processRepo\<close> on a worker pool and ends
  with \<open>updateGitignore\<close>; the second (lines 402-725) synchronises in a plain loop inside
  \<open>run\<close> and collects warnings. Both are embedded; the functions of the second listing
  that differ from the first carry the suffix \<open>2\<close> (\<open>run2\<close>, \<open>repoPathToURL2\<close>).

  Go strings are byte strings and are modelled as \<open>string\<close> (a list of 8-bit characters).
  Go's \<open>int\<close> results that are indices or counts are modelled as \<open>nat\<close>, a failing search
  (\<open>-1\<close>) as \<open>None\<close>. An \<open>error\<close> value is modelled by its message.
\<close>

subsection \<open>The functions of package \<open>strings\<close> that the code calls\<close>

definition newline :: char where
  "newline = CHR 0x0A"

definition HasPrefix :: "string \<Rightarrow> string \<Rightarrow> bool" where
  "HasPrefix s p = prefix p s"

definition HasSuffix :: "string \<Rightarrow> string \<Rightarrow> bool" where
  "HasSuffix s p = suffix p s"

text \<open>\<open>strings.Index\<close>: the offset of the first occurrence, \<open>None\<close> for Go's \<open>-1\<close>.\<close>

fun Index :: "string \<Rightarrow> string \<Rightarrow> nat option" where
  "Index [] sub = (if sub = [] then Some 0 else None)"
| "Index (c # s) sub =
     (if prefix sub (c # s) then Some 0 else map_option Suc (Index s sub))"

definition Contains :: "string \<Rightarrow> string \<Rightarrow> bool" where
  "Contains s sub = (Index s sub \<noteq> None)"

text \<open>
  \<open>strings.Split\<close> with a separator of one byte, which is the only way the code calls
  it (\<open>"/"\<close> and \<open>"\n"\<close>): cut at the first separator, go on with the rest, and
  the last piece is whatever is left.
\<close>

function Split :: "string \<Rightarrow> char \<Rightarrow> string list" where
  "Split s sep =
     (case dropWhile (\<lambda>c. c \<noteq> sep) s of
        [] \<Rightarrow> [s]
      | _ # rest \<Rightarrow> takeWhile (\<lambda>c. c \<noteq> sep) s # Split rest sep)"
  by pat_completeness auto
termination
proof (relation "measure (\<lambda>(s, sep). length s)")
  show "wf (measure (\<lambda>(s, sep). length s))" by simp
next
  fix s :: string and sep x rest
  assume "dropWhile (\<lambda>c. c \<noteq> sep) s = x # rest"
  then have "length (x # rest) \<le> length s"
    by (metis length_dropWhile_le)
  then show "((rest, sep), (s, sep)) \<in> measure (\<lambda>(s, sep). length s)"
    by simp
qed

declare Split.simps [simp del]

text \<open>\<open>strings.SplitN(s, sep, 2)\<close> with a separator of one byte: at most two pieces.\<close>

definition SplitN2 :: "string \<Rightarrow> char \<Rightarrow> string list" where
  "SplitN2 s sep =
     (case dropWhile (\<lambda>c. c \<noteq> sep) s of
        [] \<Rightarrow> [s]
      | _ # rest \<Rightarrow> [takeWhile (\<lambda>c. c \<noteq> sep) s, rest])"

text \<open>
  \<open>strings.TrimSpace\<close> removes the leading and the trailing white space as
  \<open>unicode.IsSpace\<close> defines it: the six ASCII characters \<open>\t \n \v \f \r\<close> and the
  blank, and the code points U+0085, U+00A0, U+1680, U+2000 to U+200A, U+2028, U+2029,
  U+202F, U+205F and U+3000, here in their UTF-8 encoding. Go decodes one code point
  after the other from the left, then from the right; bytes that are not the encoding of
  one of these code points stop the trimming.
\<close>

definition spaceRunes :: "string list" where
  "spaceRunes =
     [[CHR 0x09], [CHR 0x0A], [CHR 0x0B], [CHR 0x0C], [CHR 0x0D], [CHR 0x20],
      [CHR 0xC2, CHR 0x85], [CHR 0xC2, CHR 0xA0], [CHR 0xE1, CHR 0x9A, CHR 0x80],
      [CHR 0xE2, CHR 0x80, CHR 0x80], [CHR 0xE2, CHR 0x80, CHR 0x81], [CHR 0xE2, CHR 0x80, CHR 0x82],
      [CHR 0xE2, CHR 0x80, CHR 0x83], [CHR 0xE2, CHR 0x80, CHR 0x84], [CHR 0xE2, CHR 0x80, CHR 0x85],
      [CHR 0xE2, CHR 0x80, CHR 0x86], [CHR 0xE2, CHR 0x80, CHR 0x87], [CHR 0xE2, CHR 0x80, CHR 0x88],
      [CHR 0xE2, CHR 0x80, CHR 0x89], [CHR 0xE2, CHR 0x80, CHR 0x8A], [CHR 0xE2, CHR 0x80, CHR 0xA8],
      [CHR 0xE2, CHR 0x80, CHR 0xA9], [CHR 0xE2, CHR 0x80, CHR 0xAF], [CHR 0xE2, CHR 0x81, CHR 0x9F],
      [CHR 0xE3, CHR 0x80, CHR 0x80]]"

text \<open>The string without the pieces of \<open>rs\<close> that it starts with.\<close>

function trimLeft :: "string list \<Rightarrow> string \<Rightarrow> string" where
  "trimLeft rs s =
     (case find (\<lambda>r. r \<noteq> [] \<and> prefix r s) rs of
        None \<Rightarrow> s
      | Some r \<Rightarrow> trimLeft rs (drop (length r) s))"
  by pat_completeness auto
termination
proof (relation "measure (\<lambda>(rs, s). length s)")
  show "wf (measure (\<lambda>(rs, s). length s))" by simp
next
  fix rs :: "string list" and s r :: string
  assume "find (\<lambda>r. r \<noteq> [] \<and> prefix r s) rs = Some r"
  then have "r \<noteq> [] \<and> prefix r s"
    by (auto simp: find_Some_iff)
  then have "0 < length r" "length r \<le> length s"
    by (auto simp: prefix_length_le)
  then have "length s - length r < length s"
    by linarith
  then show "((rs, drop (length r) s), (rs, s)) \<in> measure (\<lambda>(rs, s). length s)"
    by simp
qed

declare trimLeft.simps [simp del]

definition TrimSpace :: "string \<Rightarrow> string" where
  "TrimSpace s = rev (trimLeft (map rev spaceRunes) (rev (trimLeft spaceRunes s)))"

text \<open>\<open>strings.Join\<close>.\<close>

fun Join :: "string list \<Rightarrow> string \<Rightarrow> string" where
  "Join [] sep = []"
| "Join [x] sep = x"
| "Join (x # y # ys) sep = x @ sep @ Join (y # ys) sep"

text \<open>The decimal digits of a count, as \<open>fmt.Sprintf("%d", n)\<close> prints them.\<close>

function Itoa :: "nat \<Rightarrow> string" where
  "Itoa n =
     (if n < 10 then [''0123456789'' ! n]
      else Itoa (n div 10) @ [''0123456789'' ! (n mod 10)])"
  by pat_completeness auto
termination
  by (relation "measure id") auto

declare Itoa.simps [simp del]

subsection \<open>\<open>types.go\<close>\<close>

record Config =
  Root :: string
  Force :: bool
  Quiet :: bool
  Paths :: string

record RepoResult =
  Path :: string
  Detail :: string

record SkippedRepo =
  SPath :: string
  Reason :: string
  SDetail :: string

record Result =
  Updated :: "RepoResult list"
  Cloned :: "RepoResult list"
  Removed :: "string list"
  Skipped :: "SkippedRepo list"
  Warnings :: "string list"

definition Result0 :: Result where
  "Result0 = \<lparr>Updated = [], Cloned = [], Removed = [], Skipped = [], Warnings = []\<rparr>"

subsection \<open>The world the program runs in\<close>

text \<open>
  The file tree, from the root directory \<open>/\<close>. A directory lists its entries in the
  order \<open>os.ReadDir\<close> returns them (sorted by name). \<open>Unreadable d e\<close> is an entry whose
  content cannot be read, a directory if \<open>d\<close> holds, with the error \<open>e\<close>.
\<close>

datatype node = File string | Dir "(string \<times> node) list" | Unreadable bool string

text \<open>
  What the program does to the outside: the processes it starts (working directory and
  arguments of \<open>git\<close>), the trees it removes and the files it writes, oldest first.
\<close>

datatype event =
    Exec string "string list"
  | RemoveAll string
  | WriteFile string string

record proc_result =
  run_err :: "string option"
  out_text :: string
  err_text :: string

text \<open>
  \<open>fs\<close> is the file tree, \<open>getenv\<close> is \<open>os.Getenv\<close>, \<open>refuse_remove\<close> says for
  which paths the operating system fails \<open>os.RemoveAll\<close>, with which error, and which
  paths below it are gone by then, \<open>refuse_write\<close> says for which paths it fails
  \<open>os.WriteFile\<close> and with which error, \<open>events\<close> is the history of effects and
  \<open>ext\<close> is everything else a \<open>git\<close> process depends on (remotes, the network).
\<close>

record 'g world =
  fs :: node
  getenv :: "string \<Rightarrow> string"
  refuse_remove :: "string \<Rightarrow> (string \<times> string list) option"
  refuse_write :: "string \<Rightarrow> string option"
  events :: "event list"
  ext :: 'g

text \<open>
  A \<open>git\<close> process is not part of the repository: it is a parameter of the embedding, any
  function from the working directory, the arguments and the world to what \<open>cmd.Run\<close>
  reports and the world the process leaves behind.
\<close>

type_synonym 'g git = "string \<Rightarrow> string list \<Rightarrow> 'g world \<Rightarrow> proc_result \<times> 'g world"

definition cmd_Run :: "'g git \<Rightarrow> string \<Rightarrow> string list \<Rightarrow> 'g world \<Rightarrow> proc_result \<times> 'g world" where
  "cmd_Run git dir args w =
     (let (r, w') = git dir args w
      in (r, w'\<lparr>events := events w @ [Exec dir args]\<rparr>))"

subsection \<open>\<open>git.go\<close>: the backend adapter\<close>

text \<open>A \<open>Repo\<close> is its \<open>Path\<close>.\<close>

definition Repo_run :: "'g git \<Rightarrow> string \<Rightarrow> string list \<Rightarrow> 'g world \<Rightarrow> (string + string) \<times> 'g world" where
  "Repo_run git path args w =
     (let (r, w') = cmd_Run git path args w
      in case run_err r of
           Some e \<Rightarrow> (Inl (''git '' @ Join args '' '' @ '': '' @ e @ '': '' @ err_text r), w')
         | None \<Rightarrow> (Inr (out_text r), w'))"

definition DefaultBranch :: "'g git \<Rightarrow> string \<Rightarrow> 'g world \<Rightarrow> (string + string) \<times> 'g world" where
  "DefaultBranch git path w =
     (case Repo_run git path [''symbolic-ref'', ''refs/remotes/origin/HEAD''] w of
        (Inl e, w') \<Rightarrow> (Inl e, w')
      | (Inr out, w') \<Rightarrow>
          (let parts = Split (TrimSpace out) CHR ''/''
           in if length parts = 0 then (Inl ''could not parse default branch'', w')
              else (Inr (parts ! (length parts - 1)), w')))"

definition CurrentBranch :: "'g git \<Rightarrow> string \<Rightarrow> 'g world \<Rightarrow> (string + string) \<times> 'g world" where
  "CurrentBranch git path w =
     (case Repo_run git path [''branch'', ''--show-current''] w of
        (Inl e, w') \<Rightarrow> (Inl e, w')
      | (Inr out, w') \<Rightarrow> (Inr (TrimSpace out), w'))"

definition HasUncommittedChanges :: "'g git \<Rightarrow> string \<Rightarrow> 'g world \<Rightarrow> (string + bool) \<times> 'g world" where
  "HasUncommittedChanges git path w =
     (case Repo_run git path [''status'', ''--porcelain''] w of
        (Inl e, w') \<Rightarrow> (Inl e, w')
      | (Inr out, w') \<Rightarrow> (Inr (TrimSpace out \<noteq> []), w'))"

text \<open>The loop of \<open>ChangesSummary\<close> over the status lines: modified, added, deleted.\<close>

fun countChanges :: "string list \<Rightarrow> nat \<times> nat \<times> nat \<Rightarrow> nat \<times> nat \<times> nat" where
  "countChanges [] acc = acc"
| "countChanges (line # ls) (m, a, d) =
     (if length line < 2 then countChanges ls (m, a, d)
      else let status = take 2 line
           in if Contains status ''M'' then countChanges ls (m + 1, a, d)
              else if Contains status ''A'' \<or> Contains status ''?'' then countChanges ls (m, a + 1, d)
              else if Contains status ''D'' then countChanges ls (m, a, d + 1)
              else countChanges ls (m, a, d))"

definition ChangesSummary :: "'g git \<Rightarrow> string \<Rightarrow> 'g world \<Rightarrow> string \<times> 'g world" where
  "ChangesSummary git path w =
     (let (res, w') = Repo_run git path [''status'', ''--porcelain''] w;
          out = (case res of Inl e \<Rightarrow> [] | Inr out \<Rightarrow> out);
          lines = Split (TrimSpace out) newline
      in if length lines = 1 \<and> lines ! 0 = [] then (''no changes'', w')
         else
           (let (modified, added, deleted) = countChanges lines (0, 0, 0);
                parts = (if modified > 0 then [Itoa modified @ '' modified''] else [])
                      @ (if added > 0 then [Itoa added @ '' added''] else [])
                      @ (if deleted > 0 then [Itoa deleted @ '' deleted''] else [])
            in if length parts = 0 then (Itoa (length lines) @ '' changes'', w')
               else (Join parts '', '', w')))"

definition Pull :: "'g git \<Rightarrow> string \<Rightarrow> 'g world \<Rightarrow> (string + bool) \<times> 'g world" where
  "Pull git path w =
     (case Repo_run git path [''rev-parse'', ''HEAD''] w of
        (Inl e, w1) \<Rightarrow> (Inl e, w1)
      | (Inr headBefore, w1) \<Rightarrow>
          (case Repo_run git path [''pull''] w1 of
             (Inl e, w2) \<Rightarrow> (Inl e, w2)
           | (Inr _, w2) \<Rightarrow>
               (case Repo_run git path [''rev-parse'', ''HEAD''] w2 of
                  (Inl e, w3) \<Rightarrow> (Inl e, w3)
                | (Inr headAfter, w3) \<Rightarrow> (Inr (headBefore \<noteq> headAfter), w3))))"

definition Stash :: "'g git \<Rightarrow> string \<Rightarrow> 'g world \<Rightarrow> string option \<times> 'g world" where
  "Stash git path w =
     (case Repo_run git path [''stash'', ''push'', ''-m'', ''gitjoin''] w of
        (Inl e, w') \<Rightarrow> (Some e, w')
      | (Inr _, w') \<Rightarrow> (None, w'))"

definition Unstash :: "'g git \<Rightarrow> string \<Rightarrow> 'g world \<Rightarrow> string option \<times> 'g world" where
  "Unstash git path w =
     (case Repo_run git path [''stash'', ''pop''] w of
        (Inl e, w') \<Rightarrow> (Some e, w')
      | (Inr _, w') \<Rightarrow> (None, w'))"

definition SwitchBranch :: "'g git \<Rightarrow> string \<Rightarrow> string \<Rightarrow> 'g world \<Rightarrow> string option \<times> 'g world" where
  "SwitchBranch git path branch w =
     (case Repo_run git path [''switch'', branch] w of
        (Inl e, w') \<Rightarrow> (Some e, w')
      | (Inr _, w') \<Rightarrow> (None, w'))"

text \<open>
  \<open>clone\<close> starts \<open>git clone url path\<close> with no working directory set and returns the
  error of \<open>cmd.Run\<close>; what the process prints goes to the log writer and is dropped here.
\<close>

definition clone :: "'g git \<Rightarrow> string \<Rightarrow> string \<Rightarrow> 'g world \<Rightarrow> string option \<times> 'g world" where
  "clone git url path w =
     (let (r, w') = cmd_Run git [] [''clone'', url, path] w
      in (run_err r, w'))"

subsection \<open>\<open>repoPathToURL\<close>, in both listings\<close>

definition repoPathToURL :: "'g world \<Rightarrow> string \<Rightarrow> string" where
  "repoPathToURL w repoPath =
     (let parts = SplitN2 repoPath CHR ''/''
      in if length parts \<noteq> 2 then []
         else if getenv w ''GITHUB_ACTIONS'' \<noteq> [] then ''https://'' @ parts ! 0 @ ''/'' @ parts ! 1 @ ''.git''
         else ''git@'' @ parts ! 0 @ '':'' @ parts ! 1 @ ''.git'')"

definition repoPathToURL2 :: "string \<Rightarrow> string" where
  "repoPathToURL2 repoPath =
     (let parts = SplitN2 repoPath CHR ''/''
      in if length parts \<noteq> 2 then []
         else ''git@'' @ parts ! 0 @ '':'' @ parts ! 1 @ ''.git'')"

subsection \<open>The functions of package \<open>path/filepath\<close> that the code calls, on Unix\<close>

text \<open>
  \<open>filepath.Clean\<close>, element by element: empty elements and \<open>.\<close> are dropped, \<open>..\<close>
  removes the element before it, stays at the front of a relative path and is dropped at
  the root; the empty result is \<open>.\<close>.
\<close>

definition cleanStep :: "bool \<Rightarrow> string list \<Rightarrow> string \<Rightarrow> string list" where
  "cleanStep rooted out el =
     (if el = [] \<or> el = ''.'' then out
      else if el = ''..'' then
        (if out \<noteq> [] \<and> last out \<noteq> ''..'' then butlast out
         else if rooted then out
         else out @ [''..''])
      else out @ [el])"

definition Clean :: "string \<Rightarrow> string" where
  "Clean path =
     (if path = [] then ''.''
      else
        (let rooted = (hd path = CHR ''/'');
             out = foldl (cleanStep rooted) [] (Split path CHR ''/'');
             res = (if rooted then ''/'' else []) @ Join out ''/''
         in if res = [] then ''.'' else res))"

text \<open>\<open>filepath.Join\<close>: the elements from the first non-empty one on, joined and cleaned.\<close>

definition filepath_Join :: "string list \<Rightarrow> string" where
  "filepath_Join elem =
     (case dropWhile (\<lambda>e. e = []) elem of
        [] \<Rightarrow> []
      | es \<Rightarrow> Clean (Join es ''/''))"

text \<open>\<open>filepath.Base\<close>: the last element, after the trailing slashes.\<close>

definition Base :: "string \<Rightarrow> string" where
  "Base path =
     (if path = [] then ''.''
      else
        (let p = rev (dropWhile (\<lambda>c. c = CHR ''/'') (rev path));
             b = rev (takeWhile (\<lambda>c. c \<noteq> CHR ''/'') (rev p))
         in if b = [] then ''/'' else b))"

text \<open>\<open>filepath.ToSlash\<close> changes nothing where the separator is the slash.\<close>

definition ToSlash :: "string \<Rightarrow> string" where
  "ToSlash path = path"

text \<open>
  \<open>filepath.Rel(Root, filepath.Dir(path))\<close> for the entry that the walk from \<open>Root\<close>
  reached through the names \<open>rel\<close>: the walk builds \<open>path\<close> by joining these names
  under \<open>Root\<close>, so the directory of the entry is relative to \<open>Root\<close> by the names
  but the last, \<open>.\<close> for an entry of \<open>Root\<close>, and \<open>..\<close> for \<open>Root\<close> itself.
  \<open>Rel\<close> does not fail on these paths.
\<close>

definition relDirOf :: "string list \<Rightarrow> string" where
  "relDirOf rel =
     (case rel of
        [] \<Rightarrow> ''..''
      | _ \<Rightarrow> (if butlast rel = [] then ''.'' else Join (butlast rel) ''/''))"

subsection \<open>The file system calls\<close>

text \<open>The names of a path from the root of the tree.\<close>

definition path_elems :: "string \<Rightarrow> string list" where
  "path_elems p = filter (\<lambda>e. e \<noteq> []) (Split p CHR ''/'')"

fun isDir :: "node \<Rightarrow> bool" where
  "isDir (Dir es) = True"
| "isDir (Unreadable d e) = d"
| "isDir (File c) = False"

text \<open>
  \<open>os.Stat\<close> and \<open>os.Lstat\<close> (the tree has no links): the entry, that there is none
  (\<open>os.IsNotExist\<close> holds of the error), or another error: a name below a file or
  below an entry that cannot be read.
\<close>

datatype stat = Found node | NotExist | StatError

fun lstat :: "string list \<Rightarrow> node \<Rightarrow> stat"
  and lstat_in :: "string \<Rightarrow> string list \<Rightarrow> (string \<times> node) list \<Rightarrow> stat" where
  "lstat [] n = Found n"
| "lstat (k # ks) (Dir es) = lstat_in k ks es"
| "lstat (k # ks) (File c) = StatError"
| "lstat (k # ks) (Unreadable d e) = StatError"
| "lstat_in k ks [] = NotExist"
| "lstat_in k ks ((k', n) # es) = (if k = k' then lstat ks n else lstat_in k ks es)"

definition os_Stat :: "string \<Rightarrow> 'g world \<Rightarrow> stat" where
  "os_Stat p w = lstat (path_elems p) (fs w)"

text \<open>The tree without the entry at a path, and all below it.\<close>

fun remove_at :: "string list \<Rightarrow> node \<Rightarrow> node"
  and remove_in :: "string \<Rightarrow> string list \<Rightarrow> (string \<times> node) list \<Rightarrow> (string \<times> node) list" where
  "remove_at [] n = n"
| "remove_at (k # ks) (Dir es) = Dir (remove_in k ks es)"
| "remove_at (k # ks) (File c) = File c"
| "remove_at (k # ks) (Unreadable d e) = Unreadable d e"
| "remove_in k ks [] = []"
| "remove_in k ks ((k', n) # es) =
     (if k = k' then (if ks = [] then remove_in k ks es else (k', remove_at ks n) # es)
      else (k', n) # remove_in k ks es)"

text \<open>
  \<open>os.RemoveAll\<close>: nothing to do and no error when the path does not exist. When the
  operating system refuses, the error is returned, and what has been removed below the
  path before the failure stays removed. The root of the tree itself is not removed.
\<close>

definition os_RemoveAll :: "string \<Rightarrow> 'g world \<Rightarrow> string option \<times> 'g world" where
  "os_RemoveAll p w =
     (let w1 = w\<lparr>events := events w @ [RemoveAll p]\<rparr>
      in case refuse_remove w p of
           Some (e, gone) \<Rightarrow>
             (Some e,
              w1\<lparr>fs := foldl (\<lambda>t q. remove_at (path_elems q) t) (fs w)
                          (filter (\<lambda>q. strict_prefix (path_elems p) (path_elems q)) gone)\<rparr>)
         | None \<Rightarrow> (None, w1\<lparr>fs := remove_at (path_elems p) (fs w)\<rparr>))"

text \<open>\<open>os.ReadFile\<close>: the bytes, or an error of which \<open>os.IsNotExist\<close> holds, or another error.\<close>

datatype readres = Bytes string | ReadNotExist | ReadError string

definition os_ReadFile :: "string \<Rightarrow> 'g world \<Rightarrow> readres" where
  "os_ReadFile p w =
     (case os_Stat p w of
        Found (File c) \<Rightarrow> Bytes c
      | Found (Dir es) \<Rightarrow> ReadError (''read '' @ p @ '': is a directory'')
      | Found (Unreadable d e) \<Rightarrow> ReadError e
      | NotExist \<Rightarrow> ReadNotExist
      | StatError \<Rightarrow> ReadError (''open '' @ p @ '': not a directory''))"

text \<open>
  The tree with a file written at a path: an existing file is replaced, a new one is
  entered into its directory at its place in the order of the names; \<open>None\<close> when the
  directory is missing or the path is taken by something that is not a file.
\<close>

fun put_file :: "string list \<Rightarrow> string \<Rightarrow> node \<Rightarrow> node option"
  and put_in :: "string \<Rightarrow> string list \<Rightarrow> string \<Rightarrow> (string \<times> node) list \<Rightarrow> (string \<times> node) list option" where
  "put_file [] c n = (case n of File _ \<Rightarrow> Some (File c) | _ \<Rightarrow> None)"
| "put_file (k # ks) c (Dir es) = map_option Dir (put_in k ks c es)"
| "put_file (k # ks) c (File _) = None"
| "put_file (k # ks) c (Unreadable d e) = None"
| "put_in k ks c [] = (if ks = [] then Some [(k, File c)] else None)"
| "put_in k ks c ((k', n) # es) =
     (if k = k' then map_option (\<lambda>n'. (k', n') # es) (put_file ks c n)
      else if ks = [] \<and> k < k' \<and> k \<notin> set (map fst es) then Some ((k, File c) # (k', n) # es)
      else map_option (\<lambda>es'. (k', n) # es') (put_in k ks c es))"

definition os_WriteFile :: "string \<Rightarrow> string \<Rightarrow> 'g world \<Rightarrow> string option \<times> 'g world" where
  "os_WriteFile p c w =
     (let w1 = w\<lparr>events := events w @ [WriteFile p c]\<rparr>
      in case refuse_write w p of
           Some e \<Rightarrow> (Some e, w1)
         | None \<Rightarrow>
             (case put_file (path_elems p) c (fs w) of
                None \<Rightarrow> (Some (''open '' @ p @ '': no such file or directory''), w1)
              | Some t \<Rightarrow> (None, w1\<lparr>fs := t\<rparr>)))"

subsection \<open>\<open>filepath.WalkDir\<close>\<close>

text \<open>What the function given to \<open>WalkDir\<close> returns: \<open>nil\<close>, \<open>filepath.SkipDir\<close> or an error.\<close>

datatype ctl = Next | SkipDir | Abort string

text \<open>
  The function given to \<open>WalkDir\<close> is called with the names from the root of the walk
  to the entry (which stand for its \<open>path\<close>), with the entry (\<open>d.Name()\<close> and the node,
  for \<open>d.IsDir()\<close> and for what is read at \<open>path\<close>) and with the error; it works on a
  state, the variables it has captured.
\<close>

type_synonym 's walkfn = "string list \<Rightarrow> string \<Rightarrow> node \<Rightarrow> string option \<Rightarrow> 's \<Rightarrow> ctl \<times> 's"

fun walkDir :: "'s walkfn \<Rightarrow> string list \<Rightarrow> string \<Rightarrow> node \<Rightarrow> 's \<Rightarrow> ctl \<times> 's"
  and walkEntries :: "'s walkfn \<Rightarrow> string list \<Rightarrow> (string \<times> node) list \<Rightarrow> 's \<Rightarrow> ctl \<times> 's" where
  "walkDir fn rel name (File c) s = fn rel name (File c) None s"
| "walkDir fn rel name (Unreadable d e) s =
     (case fn rel name (Unreadable d e) None s of
        (Abort err, s1) \<Rightarrow> (Abort err, s1)
      | (SkipDir, s1) \<Rightarrow> (if d then (Next, s1) else (SkipDir, s1))
      | (Next, s1) \<Rightarrow>
          (if \<not> d then (Next, s1)
           else case fn rel name (Unreadable d e) (Some e) s1 of
                  (Abort err, s2) \<Rightarrow> (Abort err, s2)
                | (_, s2) \<Rightarrow> (Next, s2)))"
| "walkDir fn rel name (Dir es) s =
     (case fn rel name (Dir es) None s of
        (Abort err, s1) \<Rightarrow> (Abort err, s1)
      | (SkipDir, s1) \<Rightarrow> (Next, s1)
      | (Next, s1) \<Rightarrow> walkEntries fn rel es s1)"
| "walkEntries fn rel [] s = (Next, s)"
| "walkEntries fn rel ((name, n) # es) s =
     (case walkDir fn (rel @ [name]) name n s of
        (Abort err, s1) \<Rightarrow> (Abort err, s1)
      | (SkipDir, s1) \<Rightarrow> (Next, s1)
      | (Next, s1) \<Rightarrow> walkEntries fn rel es s1)"

text \<open>
  \<open>WalkDir(root, fn)\<close>. When \<open>Lstat\<close> of the root fails, \<open>fn\<close> is called with that
  error and no entry (\<open>d\<close> is \<open>nil\<close>; both functions of this program return the error
  before they look at \<open>d\<close>, which is given here as an unreadable entry).
\<close>

definition WalkDir :: "'s walkfn \<Rightarrow> string \<Rightarrow> 'g world \<Rightarrow> 's \<Rightarrow> string option \<times> 's" where
  "WalkDir fn root w s =
     (let res =
        (case os_Stat root w of
           Found n \<Rightarrow> walkDir fn [] (Base root) n s
         | NotExist \<Rightarrow>
             fn [] (Base root) (Unreadable False (''lstat '' @ root @ '': no such file or directory''))
                (Some (''lstat '' @ root @ '': no such file or directory'')) s
         | StatError \<Rightarrow>
             fn [] (Base root) (Unreadable False (''lstat '' @ root @ '': not a directory''))
                (Some (''lstat '' @ root @ '': not a directory'')) s)
      in case res of
           (Abort err, s') \<Rightarrow> (Some err, s')
         | (_, s') \<Rightarrow> (None, s'))"

subsection \<open>\<open>sync.go\<close>: manifests and the expected repositories (the same in both listings)\<close>

text \<open>
  The \<open>path\<close> that \<open>WalkDir\<close> gives to the function: the root, joined with the names
  on the way to the entry, one after the other.
\<close>

definition walkPath :: "string \<Rightarrow> string list \<Rightarrow> string" where
  "walkPath root rel = foldl (\<lambda>p name. filepath_Join [p, name]) root rel"

text \<open>
  \<open>parseGitjoinFile\<close>, on the entry found at the path. \<open>bufio.Scanner\<close> gives the lines
  (a last empty piece and a trailing carriage return are dropped by the scanner; here
  \<open>TrimSpace\<close> and the test for the empty line drop them) and fails on a line that does
  not fit its buffer of 64 KiB. A directory can be opened, and fails at the first read.
\<close>

definition parseGitjoinFile :: "string \<Rightarrow> node \<Rightarrow> string + string list" where
  "parseGitjoinFile path n =
     (case n of
        File c \<Rightarrow>
          (let lines = Split c newline
           in if list_ex (\<lambda>l. 65536 \<le> length l) lines then Inl ''bufio.Scanner: token too long''
              else Inr (filter (\<lambda>line. \<not> (line = [] \<or> HasPrefix line ''#'')) (map TrimSpace lines)))
      | Dir es \<Rightarrow> Inl (''read '' @ path @ '': is a directory'')
      | Unreadable d e \<Rightarrow> Inl e)"

text \<open>
  \<open>filepath.Match\<close> is a parameter: any function from the pattern and the name to
  \<open>(matched, err)\<close>.
\<close>

type_synonym matcher = "string \<Rightarrow> string \<Rightarrow> string + bool"

text \<open>
  A Go map from local path to remote identifier is an association list with distinct
  keys. Go does not specify the order in which \<open>range\<close> visits the entries of a map: the
  order is a parameter, a list of choices. The choice \<open>c\<close> takes entry number
  \<open>c mod n\<close> of the \<open>n\<close> entries not visited yet; when the choices run out the
  entries left are visited as they stand in the list.
\<close>

type_synonym repos = "(string \<times> string) list"

function pickOrder :: "nat list \<Rightarrow> 'a list \<Rightarrow> 'a list" where
  "pickOrder cs [] = []"
| "pickOrder [] (x # xs) = x # xs"
| "pickOrder (c # cs) (x # xs) =
     (let k = c mod length (x # xs)
      in (x # xs) ! k # pickOrder cs (take k (x # xs) @ drop (Suc k) (x # xs)))"
  by pat_completeness auto
termination
proof (relation "measure (\<lambda>(cs, xs). length xs)")
  show "wf (measure (\<lambda>(cs, xs). length xs))" by simp
next
  fix c :: nat and cs :: "nat list" and x :: 'a and xs :: "'a list" and k
  assume "k = c mod length (x # xs)"
  then have "k < length (x # xs)" by simp
  then have "length (take k (x # xs) @ drop (Suc k) (x # xs)) < length (x # xs)"
    unfolding length_append length_take length_drop by linarith
  then show "((cs, take k (x # xs) @ drop (Suc k) (x # xs)), (c # cs, x # xs))
      \<in> measure (\<lambda>(cs, xs). length xs)"
    by simp
qed

text \<open>The loop over the lines of one manifest (lines 274-294).\<close>

fun addRepos :: "matcher \<Rightarrow> Config \<Rightarrow> string \<Rightarrow> string list \<Rightarrow> repos \<Rightarrow> string + repos" where
  "addRepos match cfg relDir [] expected = Inr expected"
| "addRepos match cfg relDir (repo # rs) expected =
     (let repoName = Base repo;
          localPath = (if relDir = ''.'' then repoName else filepath_Join [relDir, repoName])
      in if Paths cfg \<noteq> [] then
           (case match (Paths cfg) localPath of
              Inl e \<Rightarrow> Inl e
            | Inr matched \<Rightarrow>
                (if \<not> matched then addRepos match cfg relDir rs expected
                 else addRepos match cfg relDir rs (AList.update localPath repo expected)))
         else addRepos match cfg relDir rs (AList.update localPath repo expected))"

text \<open>The function that \<open>collectExpectedRepos\<close> gives to \<open>WalkDir\<close> (lines 252-296).\<close>

definition collectFn :: "matcher \<Rightarrow> Config \<Rightarrow> repos walkfn" where
  "collectFn match cfg rel name n err expected =
     (case err of
        Some e \<Rightarrow> (Abort e, expected)
      | None \<Rightarrow>
          (if isDir n \<and> name = ''.git'' then (SkipDir, expected)
           else if name \<noteq> ''gitjoin.txt'' then (Next, expected)
           else
             (case parseGitjoinFile (walkPath (Root cfg) rel) n of
                Inl e \<Rightarrow> (Abort e, expected)
              | Inr repos \<Rightarrow>
                  (case addRepos match cfg (relDirOf rel) repos expected of
                     Inl e \<Rightarrow> (Abort e, expected)
                   | Inr expected' \<Rightarrow> (Next, expected')))))"

definition collectExpectedRepos :: "matcher \<Rightarrow> Config \<Rightarrow> 'g world \<Rightarrow> string + repos" where
  "collectExpectedRepos match cfg w =
     (case WalkDir (collectFn match cfg) (Root cfg) w [] of
        (Some e, expected) \<Rightarrow> Inl e
      | (None, expected) \<Rightarrow> Inr expected)"

text \<open>The function that \<open>findAllGitRepos\<close> gives to \<open>WalkDir\<close> (lines 303-318).\<close>

definition findFn :: "(string list) walkfn" where
  "findFn rel name n err repos =
     (case err of
        Some e \<Rightarrow> (Abort e, repos)
      | None \<Rightarrow>
          (if isDir n \<and> name = ''.git'' then
             (SkipDir, if relDirOf rel \<noteq> ''.'' then repos @ [relDirOf rel] else repos)
           else (Next, repos)))"

definition findAllGitRepos :: "Config \<Rightarrow> 'g world \<Rightarrow> string + string list" where
  "findAllGitRepos cfg w =
     (case WalkDir findFn (Root cfg) w [] of
        (Some e, repos) \<Rightarrow> Inl e
      | (None, repos) \<Rightarrow> Inr repos)"

definition IsGitRepo :: "string \<Rightarrow> 'g world \<Rightarrow> bool" where
  "IsGitRepo path w =
     (case os_Stat (filepath_Join [path, ''.git'']) w of
        Found n \<Rightarrow> isDir n
      | _ \<Rightarrow> False)"

subsection \<open>\<open>sync.go\<close>, first listing: \<open>updateGitignore\<close>\<close>

definition gitignoreStart :: string where
  "gitignoreStart = ''# Managed by gitjoin - do not edit this section''"

definition gitignoreEnd :: string where
  "gitignoreEnd = ''# End gitjoin managed section''"

text \<open>The managed block (lines 360-371).\<close>

definition managedBlock :: "repos \<Rightarrow> string" where
  "managedBlock repos =
     (let paths = sort (map (\<lambda>(localPath, _). ToSlash localPath @ ''/'') repos)
      in gitignoreStart @ [newline]
         @ concat (map (\<lambda>p. p @ [newline]) paths)
         @ gitignoreEnd @ [newline])"

text \<open>\<open>newContent\<close>, from the bytes read and the managed block (lines 378-398).\<close>

definition newContent :: "string \<Rightarrow> string \<Rightarrow> string" where
  "newContent existing managed =
     (if length existing = 0 then managed
      else
        (case (Index existing gitignoreStart, Index existing gitignoreEnd) of
           (Some startIdx, Some endIdx) \<Rightarrow>
             (if endIdx > startIdx then
                (let endIdx1 = endIdx + length gitignoreEnd;
                     endIdx2 = (if endIdx1 < length existing \<and> existing ! endIdx1 = newline
                                then endIdx1 + 1 else endIdx1)
                 in take startIdx existing @ managed @ drop endIdx2 existing)
              else
                (let content = (if \<not> HasSuffix existing [newline] then existing @ [newline] else existing)
                 in content @ [newline] @ managed))
         | _ \<Rightarrow>
             (let content = (if \<not> HasSuffix existing [newline] then existing @ [newline] else existing)
              in content @ [newline] @ managed)))"

definition updateGitignore :: "Config \<Rightarrow> repos \<Rightarrow> 'g world \<Rightarrow> string option \<times> 'g world" where
  "updateGitignore cfg repos w =
     (let gitignorePath = filepath_Join [Root cfg, ''.gitignore''];
          managed = managedBlock repos
      in case os_ReadFile gitignorePath w of
           ReadError e \<Rightarrow> (Some e, w)
         | ReadNotExist \<Rightarrow> os_WriteFile gitignorePath (newContent [] managed) w
         | Bytes existing \<Rightarrow> os_WriteFile gitignorePath (newContent existing managed) w)"

subsection \<open>\<open>sync.go\<close>, first listing: \<open>processRepo\<close> and \<open>run\<close>\<close>

text \<open>Without the force flag (lines 182-210): the error returned, the result and the world.\<close>

definition syncPlain ::
  "'g git \<Rightarrow> string \<Rightarrow> string \<Rightarrow> string \<Rightarrow> string \<Rightarrow> bool \<Rightarrow> Result \<Rightarrow> 'g world
     \<Rightarrow> string option \<times> Result \<times> 'g world" where
  "syncPlain git fullPath localPath defaultBranch currentBranch dirty result w =
     (if dirty then
        (let (summary, w1) = ChangesSummary git fullPath w
         in (None,
             result\<lparr>Skipped := Skipped result
                @ [\<lparr>SPath = localPath, Reason = ''uncommitted changes'', SDetail = summary\<rparr>]\<rparr>,
             w1))
      else if currentBranch \<noteq> defaultBranch then
        (None,
         result\<lparr>Skipped := Skipped result
            @ [\<lparr>SPath = localPath, Reason = ''non-default branch'', SDetail = ''on '' @ currentBranch\<rparr>]\<rparr>,
         w)
      else
        (case Pull git fullPath w of
           (Inl e, w1) \<Rightarrow> (Some (localPath @ '': pull: '' @ e), result, w1)
         | (Inr changed, w1) \<Rightarrow>
             (None,
              (if changed then result\<lparr>Updated := Updated result @ [\<lparr>Path = localPath, Detail = ''pulled''\<rparr>]\<rparr>
               else result),
              w1)))"

text \<open>With the force flag (lines 212-244).\<close>

definition syncForce ::
  "'g git \<Rightarrow> string \<Rightarrow> string \<Rightarrow> string \<Rightarrow> string \<Rightarrow> bool \<Rightarrow> Result \<Rightarrow> 'g world
     \<Rightarrow> string option \<times> Result \<times> 'g world" where
  "syncForce git fullPath localPath defaultBranch currentBranch dirty result w =
     (case (if dirty then Stash git fullPath w else (None, w)) of
        (Some e, w1) \<Rightarrow> (Some (localPath @ '': stash: '' @ e), result, w1)
      | (None, w1) \<Rightarrow>
          (let stashed = dirty;
               details1 = (if dirty then [''stashed''] else [])
           in case (if currentBranch \<noteq> defaultBranch then SwitchBranch git fullPath defaultBranch w1
                    else (None, w1)) of
                (Some e, w2) \<Rightarrow> (Some (localPath @ '': switch branch: '' @ e), result, w2)
              | (None, w2) \<Rightarrow>
                  (let details2 = details1
                         @ (if currentBranch \<noteq> defaultBranch then [''switched to '' @ defaultBranch] else [])
                   in case Pull git fullPath w2 of
                        (Inl e, w3) \<Rightarrow> (Some (localPath @ '': pull: '' @ e), result, w3)
                      | (Inr changed, w3) \<Rightarrow>
                          (let details3 = details2 @ (if changed then [''pulled''] else [])
                           in case (if stashed then Unstash git fullPath w3 else (None, w3)) of
                                (Some e, w4) \<Rightarrow> (Some (localPath @ '': unstash: '' @ e), result, w4)
                              | (None, w4) \<Rightarrow>
                                  (let details4 = details3 @ (if stashed then [''unstashed''] else [])
                                   in (None,
                                       (if length details4 > 0 then
                                          result\<lparr>Updated := Updated result
                                             @ [\<lparr>Path = localPath, Detail = Join details4 '', ''\<rparr>]\<rparr>
                                        else result),
                                       w4))))))"

text \<open>
  \<open>processRepo\<close> (lines 139-247). \<open>cancelled\<close> says whether \<open>ctx.Done()\<close> is closed;
  the state is the shared \<open>result\<close> (appended to under the mutex), the shared set
  \<open>existing\<close> and the world.
\<close>

definition processRepo ::
  "'g git \<Rightarrow> Config \<Rightarrow> bool \<Rightarrow> string \<Rightarrow> string \<Rightarrow> Result \<times> string set \<times> 'g world
     \<Rightarrow> string option \<times> Result \<times> string set \<times> 'g world" where
  "processRepo git cfg cancelled localPath repoPath st =
     (case st of (result, existing, w) \<Rightarrow>
        if cancelled then (Some ''context canceled'', result, existing, w)
        else
          (let fullPath = filepath_Join [Root cfg, localPath];
               existing1 = insert localPath existing
           in case os_Stat fullPath w of
                NotExist \<Rightarrow>
                  (let url = repoPathToURL w repoPath
                   in case clone git url fullPath w of
                        (Some e, w1) \<Rightarrow> (Some (''clone '' @ localPath @ '': '' @ e), result, existing1, w1)
                      | (None, w1) \<Rightarrow>
                          (None, result\<lparr>Cloned := Cloned result @ [\<lparr>Path = localPath, Detail = []\<rparr>]\<rparr>,
                           existing1, w1))
              | _ \<Rightarrow>
                  (if \<not> IsGitRepo fullPath w then
                     (Some (localPath @ '': not a git repo''), result, existing1, w)
                   else
                     (case DefaultBranch git fullPath w of
                        (Inl e, w1) \<Rightarrow>
                          (Some (localPath @ '': get default branch: '' @ e), result, existing1, w1)
                      | (Inr defaultBranch, w1) \<Rightarrow>
                          (case CurrentBranch git fullPath w1 of
                             (Inl e, w2) \<Rightarrow>
                               (Some (localPath @ '': get current branch: '' @ e), result, existing1, w2)
                           | (Inr currentBranch, w2) \<Rightarrow>
                               (case HasUncommittedChanges git fullPath w2 of
                                  (Inl e, w3) \<Rightarrow>
                                    (Some (localPath @ '': check uncommitted changes: '' @ e),
                                     result, existing1, w3)
                                | (Inr dirty, w3) \<Rightarrow>
                                    (case (if \<not> Force cfg
                                           then syncPlain git fullPath localPath defaultBranch
                                                  currentBranch dirty result w3
                                           else syncForce git fullPath localPath defaultBranch
                                                  currentBranch dirty result w3) of
                                       (err, result', w4) \<Rightarrow> (err, result', existing1, w4))))))))"

text \<open>
  The worker pool of \<open>parahelpers\<close> (not part of the repository): \<open>Run\<close> starts a
  task on a free worker, or drops it when the context is cancelled; the first error that
  a task returns cancels the context and is the error that \<open>Wait\<close> returns. The tasks
  are given in the order in which they get their turn, which can be any order
  (\<open>pickOrder\<close> at the call). A task whose turn comes after the first error finds the
  context cancelled, or does not, when it has passed its test of \<open>ctx.Done()\<close> before:
  \<open>late\<close> says which, task by task (cancelled past the end of \<open>late\<close>). The steps of
  two tasks are not interleaved here: a task runs its processes in the directory of its
  own repository and appends to \<open>result\<close> under the mutex.
\<close>

fun runWorkers ::
  "'g git \<Rightarrow> Config \<Rightarrow> bool list \<Rightarrow> repos \<Rightarrow> string option \<Rightarrow> Result \<times> string set \<times> 'g world
     \<Rightarrow> string option \<times> Result \<times> string set \<times> 'g world" where
  "runWorkers git cfg late [] err st = (err, st)"
| "runWorkers git cfg late ((localPath, repoPath) # ps) err st =
     (let cancelled = (err \<noteq> None \<and> (case late of [] \<Rightarrow> True | l # _ \<Rightarrow> l))
      in case processRepo git cfg cancelled localPath repoPath st of
           (e, st') \<Rightarrow> runWorkers git cfg (tl late) ps (if err = None then e else err) st')"

text \<open>The loop over the repositories found on disk (lines 122-130).\<close>

fun sweep :: "Config \<Rightarrow> string set \<Rightarrow> string list \<Rightarrow> Result \<Rightarrow> 'g world \<Rightarrow> string option \<times> Result \<times> 'g world" where
  "sweep cfg existing [] result w = (None, result, w)"
| "sweep cfg existing (repo # rs) result w =
     (if repo \<notin> existing then
        (let fullPath = filepath_Join [Root cfg, repo]
         in case os_RemoveAll fullPath w of
              (Some e, w1) \<Rightarrow> (Some (''remove '' @ repo @ '': '' @ e), result, w1)
            | (None, w1) \<Rightarrow> sweep cfg existing rs (result\<lparr>Removed := Removed result @ [repo]\<rparr>) w1)
      else sweep cfg existing rs result w)"

text \<open>
  \<open>run\<close> (lines 94-137) returns the result and the error; \<open>order\<close> and \<open>late\<close> are
  the order in which the tasks get their turn and what they see of the cancellation.
\<close>

definition run ::
  "'g git \<Rightarrow> matcher \<Rightarrow> Config \<Rightarrow> nat list \<Rightarrow> bool list \<Rightarrow> 'g world
     \<Rightarrow> (Result \<times> string option) \<times> 'g world" where
  "run git match cfg order late w =
     (case collectExpectedRepos match cfg w of
        Inl e \<Rightarrow> ((Result0, Some e), w)
      | Inr expected \<Rightarrow>
          (case runWorkers git cfg late (pickOrder order expected) None (Result0, {}, w) of
             (Some e, result, existing, w1) \<Rightarrow> ((result, Some e), w1)
           | (None, result, existing, w1) \<Rightarrow>
               (case findAllGitRepos cfg w1 of
                  Inl e \<Rightarrow> ((result, Some e), w1)
                | Inr allRepos \<Rightarrow>
                    (case sweep cfg existing allRepos result w1 of
                       (Some e, result2, w2) \<Rightarrow> ((result2, Some e), w2)
                     | (None, result2, w2) \<Rightarrow>
                         (case updateGitignore cfg expected w2 of
                            (Some e, w3) \<Rightarrow> ((result2, Some (''update .gitignore: '' @ e)), w3)
                          | (None, w3) \<Rightarrow> ((result2, None), w3))))))"

subsection \<open>\<open>sync.go\<close>, second listing: \<open>run\<close>\<close>

text \<open>Without the force flag (lines 546-569): the result and the world.\<close>

definition syncPlain2 ::
  "'g git \<Rightarrow> string \<Rightarrow> string \<Rightarrow> string \<Rightarrow> string \<Rightarrow> bool \<Rightarrow> Result \<Rightarrow> 'g world
     \<Rightarrow> Result \<times> 'g world" where
  "syncPlain2 git fullPath localPath defaultBranch currentBranch dirty result w =
     (if dirty then
        (let (summary, w1) = ChangesSummary git fullPath w
         in (result\<lparr>Skipped := Skipped result
                @ [\<lparr>SPath = localPath, Reason = ''uncommitted changes'', SDetail = summary\<rparr>]\<rparr>,
             w1))
      else if currentBranch \<noteq> defaultBranch then
        (result\<lparr>Skipped := Skipped result
            @ [\<lparr>SPath = localPath, Reason = ''non-default branch'', SDetail = ''on '' @ currentBranch\<rparr>]\<rparr>,
         w)
      else
        (case Pull git fullPath w of
           (Inl e, w1) \<Rightarrow>
             (result\<lparr>Warnings := Warnings result @ [''pull failed: '' @ localPath @ '': '' @ e]\<rparr>, w1)
         | (Inr changed, w1) \<Rightarrow>
             ((if changed then result\<lparr>Updated := Updated result @ [\<lparr>Path = localPath, Detail = ''pulled''\<rparr>]\<rparr>
               else result),
              w1)))"

text \<open>With the force flag (lines 571-605).\<close>

definition syncForce2 ::
  "'g git \<Rightarrow> string \<Rightarrow> string \<Rightarrow> string \<Rightarrow> string \<Rightarrow> bool \<Rightarrow> Result \<Rightarrow> 'g world
     \<Rightarrow> Result \<times> 'g world" where
  "syncForce2 git fullPath localPath defaultBranch currentBranch dirty result w =
     (case (if dirty then Stash git fullPath w else (None, w)) of
        (Some e, w1) \<Rightarrow>
          (result\<lparr>Warnings := Warnings result @ [''stash failed: '' @ localPath @ '': '' @ e]\<rparr>, w1)
      | (None, w1) \<Rightarrow>
          (let stashed = dirty;
               details1 = (if dirty then [''stashed''] else [])
           in case (if currentBranch \<noteq> defaultBranch then SwitchBranch git fullPath defaultBranch w1
                    else (None, w1)) of
                (Some e, w2) \<Rightarrow>
                  (result\<lparr>Warnings := Warnings result
                      @ [''switch branch failed: '' @ localPath @ '': '' @ e]\<rparr>, w2)
              | (None, w2) \<Rightarrow>
                  (let details2 = details1
                         @ (if currentBranch \<noteq> defaultBranch then [''switched to '' @ defaultBranch] else [])
                   in case Pull git fullPath w2 of
                        (Inl e, w3) \<Rightarrow>
                          (result\<lparr>Warnings := Warnings result
                              @ [''pull failed: '' @ localPath @ '': '' @ e]\<rparr>, w3)
                      | (Inr changed, w3) \<Rightarrow>
                          (let details3 = details2 @ (if changed then [''pulled''] else [])
                           in case (if stashed then Unstash git fullPath w3 else (None, w3)) of
                                (uerr, w4) \<Rightarrow>
                                  (let result1 =
                                         (case uerr of
                                            Some e \<Rightarrow>
                                              result\<lparr>Warnings := Warnings result
                                                 @ [''unstash failed (conflicts?): '' @ localPath @ '': '' @ e]\<rparr>
                                          | None \<Rightarrow> result);
                                       details4 = details3
                                         @ (if stashed \<and> uerr = None then [''unstashed''] else [])
                                   in ((if length details4 > 0 then
                                          result1\<lparr>Updated := Updated result1
                                             @ [\<lparr>Path = localPath, Detail = Join details4 '', ''\<rparr>]\<rparr>
                                        else result1),
                                       w4))))))"

text \<open>
  The body of the loop over the expected repositories (lines 507-606), on the result,
  the map \<open>existing\<close> (the set of its keys; every value stored is \<open>true\<close>) and the world.
\<close>

definition syncRepo2 ::
  "'g git \<Rightarrow> Config \<Rightarrow> Result \<times> string set \<times> 'g world \<Rightarrow> string \<times> string
     \<Rightarrow> Result \<times> string set \<times> 'g world" where
  "syncRepo2 git cfg st p =
     (case (st, p) of ((result, existing, w), (localPath, repoPath)) \<Rightarrow>
        (let fullPath = filepath_Join [Root cfg, localPath];
             existing1 = insert localPath existing
         in case os_Stat fullPath w of
              NotExist \<Rightarrow>
                (let url = repoPathToURL2 repoPath
                 in case clone git url fullPath w of
                      (Some e, w1) \<Rightarrow>
                        (result\<lparr>Warnings := Warnings result @ [''clone failed: '' @ localPath @ '': '' @ e]\<rparr>,
                         existing1, w1)
                    | (None, w1) \<Rightarrow>
                        (result\<lparr>Cloned := Cloned result @ [\<lparr>Path = localPath, Detail = []\<rparr>]\<rparr>,
                         existing1, w1))
            | _ \<Rightarrow>
                (if \<not> IsGitRepo fullPath w then
                   (result\<lparr>Warnings := Warnings result @ [''not a git repo: '' @ localPath]\<rparr>, existing1, w)
                 else
                   (case DefaultBranch git fullPath w of
                      (Inl e, w1) \<Rightarrow>
                        (result\<lparr>Warnings := Warnings result
                            @ [''could not get default branch: '' @ localPath @ '': '' @ e]\<rparr>,
                         existing1, w1)
                    | (Inr defaultBranch, w1) \<Rightarrow>
                        (case CurrentBranch git fullPath w1 of
                           (Inl e, w2) \<Rightarrow>
                             (result\<lparr>Warnings := Warnings result
                                 @ [''could not get current branch: '' @ localPath @ '': '' @ e]\<rparr>,
                              existing1, w2)
                         | (Inr currentBranch, w2) \<Rightarrow>
                             (case HasUncommittedChanges git fullPath w2 of
                                (Inl e, w3) \<Rightarrow>
                                  (result\<lparr>Warnings := Warnings result
                                      @ [''could not check for uncommitted changes: '' @ localPath @ '': '' @ e]\<rparr>,
                                   existing1, w3)
                              | (Inr dirty, w3) \<Rightarrow>
                                  (case (if \<not> Force cfg
                                         then syncPlain2 git fullPath localPath defaultBranch
                                                currentBranch dirty result w3
                                         else syncForce2 git fullPath localPath defaultBranch
                                                currentBranch dirty result w3) of
                                     (result', w4) \<Rightarrow> (result', existing1, w4))))))))"

text \<open>The loop over the repositories found on disk (lines 613-622).\<close>

fun sweep2 :: "Config \<Rightarrow> string set \<Rightarrow> string list \<Rightarrow> Result \<Rightarrow> 'g world \<Rightarrow> Result \<times> 'g world" where
  "sweep2 cfg existing [] result w = (result, w)"
| "sweep2 cfg existing (repo # rs) result w =
     (if repo \<notin> existing then
        (let fullPath = filepath_Join [Root cfg, repo]
         in case os_RemoveAll fullPath w of
              (Some e, w1) \<Rightarrow>
                sweep2 cfg existing rs
                  (result\<lparr>Warnings := Warnings result @ [''remove failed: '' @ repo @ '': '' @ e]\<rparr>) w1
            | (None, w1) \<Rightarrow> sweep2 cfg existing rs (result\<lparr>Removed := Removed result @ [repo]\<rparr>) w1)
      else sweep2 cfg existing rs result w)"

text \<open>
  \<open>run\<close> of the second listing (lines 496-625); \<open>order\<close> is the order in which
  \<open>range\<close> visits the expected repositories.
\<close>

definition run2 ::
  "'g git \<Rightarrow> matcher \<Rightarrow> Config \<Rightarrow> nat list \<Rightarrow> 'g world \<Rightarrow> (Result \<times> string option) \<times> 'g world" where
  "run2 git match cfg order w =
     (case collectExpectedRepos match cfg w of
        Inl e \<Rightarrow> ((Result0, Some e), w)
      | Inr expected \<Rightarrow>
          (case foldl (syncRepo2 git cfg) (Result0, {}, w) (pickOrder order expected) of
             (result, existing, w1) \<Rightarrow>
               (case findAllGitRepos cfg w1 of
                  Inl e \<Rightarrow> ((result, Some e), w1)
                | Inr allRepos \<Rightarrow>
                    (case sweep2 cfg existing allRepos result w1 of
                       (result2, w2) \<Rightarrow> ((result2, None), w2)))))"

subsection \<open>The derived local paths, in the words of the specification\<close>

text \<open>
  Sections 4.1 and 4.2 of the specification, to be compared with \<open>collectExpectedRepos\<close>.
  A manifest lists one remote identifier on a line: the lines are trimmed, and the empty
  lines and the lines that start with \<open>#\<close> are skipped. An identifier listed by a
  manifest is turned into a local path: its base name, joined under the directory of the
  manifest (relative to the root). The manifests are the files named \<open>gitjoin.txt\<close>
  in the directories under the root, the directories named \<open>.git\<close> left out.
\<close>

definition spec_identifiers :: "string \<Rightarrow> string list" where
  "spec_identifiers content =
     filter (\<lambda>l. l \<noteq> [] \<and> hd l \<noteq> CHR ''#'') (map TrimSpace (Split content newline))"

definition spec_localPath :: "string \<Rightarrow> string \<Rightarrow> string" where
  "spec_localPath dir identifier =
     (if dir = ''.'' then Base identifier else filepath_Join [dir, Base identifier])"

text \<open>
  The pairs of a derived local path and its identifier, in the order of the directory
  listings, below the entry \<open>name\<close> reached from the root through the names \<open>rel\<close>.
\<close>

fun spec_derivedAt :: "string list \<Rightarrow> string \<Rightarrow> node \<Rightarrow> (string \<times> string) list"
  and spec_derivedIn :: "string list \<Rightarrow> (string \<times> node) list \<Rightarrow> (string \<times> string) list" where
  "spec_derivedAt rel name (File c) =
     (if name = ''gitjoin.txt''
      then map (\<lambda>i. (spec_localPath (relDirOf rel) i, i)) (spec_identifiers c)
      else [])"
| "spec_derivedAt rel name (Unreadable d e) = []"
| "spec_derivedAt rel name (Dir es) =
     (if name = ''.git'' \<or> name = ''gitjoin.txt'' then [] else spec_derivedIn rel es)"
| "spec_derivedIn rel [] = []"
| "spec_derivedIn rel ((name, n) # es) = spec_derivedAt (rel @ [name]) name n @ spec_derivedIn rel es"

definition spec_derived :: "Config \<Rightarrow> 'g world \<Rightarrow> (string \<times> string) list" where
  "spec_derived cfg w =
     (case os_Stat (Root cfg) w of
        Found n \<Rightarrow> spec_derivedAt [] (Base (Root cfg)) n
      | _ \<Rightarrow> [])"

subsection \<open>Concrete inputs\<close>

text \<open>
  A \<open>git\<close> for concrete runs: the processes answer from a script, one entry for each
  process started, and leave the file tree alone; past the end of the script they fail.
\<close>

definition scripted :: "(proc_result list) git" where
  "scripted dir args w =
     (case ext w of
        [] \<Rightarrow> (\<lparr>run_err = Some ''exit status 1'', out_text = [], err_text = []\<rparr>, w)
      | r # rs \<Rightarrow> (r, w\<lparr>ext := rs\<rparr>))"

definition ok :: "string \<Rightarrow> proc_result" where
  "ok out = \<lparr>run_err = None, out_text = out, err_text = []\<rparr>"

definition failed :: "string \<Rightarrow> proc_result" where
  "failed msg = \<lparr>run_err = Some ''exit status 1'', out_text = [], err_text = msg\<rparr>"

text \<open>A world with the file tree \<open>t\<close>, an empty environment and the script \<open>s\<close>.\<close>

definition world_of :: "node \<Rightarrow> proc_result list \<Rightarrow> (proc_result list) world" where
  "world_of t s =
     \<lparr>fs = t, getenv = (\<lambda>_. []), refuse_remove = (\<lambda>_. None), refuse_write = (\<lambda>_. None),
      events = [], ext = s\<rparr>"

text \<open>The working directory \<open>/w\<close> with the checkout \<open>a\<close> and a manifest that lists it.\<close>

definition tree_a :: node where
  "tree_a =
     Dir [(''w'', Dir [(''a'', Dir [(''.git'', Dir [])]),
                       (''gitjoin.txt'', File (''github.com/bep/a'' @ [newline]))])]"

definition cfg_w :: "bool \<Rightarrow> Config" where
  "cfg_w force = \<lparr>Root = ''/w'', Force = force, Quiet = False, Paths = []\<rparr>"

text \<open>
  A matcher for concrete runs. It agrees with \<open>filepath.Match\<close> on the patterns used
  there: a pattern without \<open>*\<close>, \<open>?\<close>, \<open>[\<close> and \<open>\\<close> matches the equal name and no
  other, and the pattern \<open>[\<close> is malformed.
\<close>

definition literal :: matcher where
  "literal pattern name =
     (if list_ex (\<lambda>c. c \<in> {CHR ''*'', CHR ''?'', CHR ''['', CHR 0x5C}) pattern
      then Inl ''syntax error in pattern''
      else Inr (pattern = name))"

text \<open>The working directory \<open>/w\<close> with a manifest and no checkout yet.\<close>

definition tree_new :: node where
  "tree_new = Dir [(''w'', Dir [(''gitjoin.txt'', File (''github.com/bep/a'' @ [newline]))])]"

text \<open>
  Scripts: a dirty checkout on \<open>main\<close>; a dirty checkout on \<open>dev\<close> whose stash does not
  pop; the same checkout whose stash pops.
\<close>

definition script_dirty :: "proc_result list" where
  "script_dirty =
     [ok ''refs/remotes/origin/main'', ok ''main'', ok '' M x.txt'', ok '' M x.txt'']"

definition script_conflict :: "proc_result list" where
  "script_conflict =
     [ok ''refs/remotes/origin/main'', ok ''dev'', ok '' M x.txt'', ok ''Saved'', ok ''Switched'',
      ok ''1f0c'', ok ''Updating'', ok ''9a7e'', failed ''CONFLICT'']"

definition script_forced :: "proc_result list" where
  "script_forced = butlast script_conflict @ [ok ''Dropped'']"

text \<open>The working directory \<open>/w\<close> with ignore files written by hand.\<close>

definition tree_ignore :: node where
  "tree_ignore = Dir [(''w'', Dir [(''.gitignore'', File ''node_modules/'')])]"

definition tree_stray :: node where
  "tree_stray = Dir [(''w'', Dir [(''.gitignore'', File (gitignoreEnd @ [newline]))])]"

text \<open>The working directory \<open>/w\<close> with a manifest of comments, and with a manifest of two repositories.\<close>

definition tree_none :: node where
  "tree_none = Dir [(''w'', Dir [(''gitjoin.txt'', File (''# nothing yet'' @ [newline]))])]"

definition tree_two :: node where
  "tree_two =
     Dir [(''w'', Dir [(''gitjoin.txt'',
        File (''github.com/bep/a'' @ [newline] @ ''github.com/bep/b'' @ [newline]))])]"

text \<open>
  The working directory \<open>/w\<close> with the checkout \<open>a\<close>, which no manifest lists any more,
  its own manifest, and the checkout \<open>a/b\<close> that this manifest lists; the script of a
  clean checkout on \<open>main\<close> with nothing to pull.
\<close>

definition tree_nested :: node where
  "tree_nested =
     Dir [(''w'', Dir [(''a'', Dir [(''.git'', Dir []),
                                    (''b'', Dir [(''.git'', Dir [])]),
                                    (''gitjoin.txt'', File (''github.com/bep/b'' @ [newline]))])])]"

definition script_clean :: "proc_result list" where
  "script_clean =
     [ok ''refs/remotes/origin/main'', ok ''main'', ok [], ok ''1f0c'', ok ''Already up to date.'', ok ''1f0c'']"

text \<open>The script of a clean checkout on \<open>main\<close> whose pull moves the head.\<close>

definition script_pulled :: "proc_result list" where
  "script_pulled =
     [ok ''refs/remotes/origin/main'', ok ''main'', ok [], ok ''1f0c'', ok ''Updating 1f0c..9a7e'', ok ''9a7e'']"

text \<open>
  The script of a clean checkout on its default branch, whose name \<open>release/1.0\<close> has
  a slash, with nothing to pull.
\<close>

definition script_release :: "proc_result list" where
  "script_release =
     [ok (''refs/remotes/origin/release/1.0'' @ [newline]), ok (''release/1.0'' @ [newline]), ok [],
      ok ''1f0c'', ok ''Already up to date.'', ok ''1f0c'']"

text \<open>
  The world in which the operating system refuses to remove the path \<open>p\<close>, with the
  error \<open>e\<close>, before anything below it is removed.
\<close>

definition refusing :: "string \<Rightarrow> string \<Rightarrow> 'g world \<Rightarrow> 'g world" where
  "refusing p e w = w\<lparr>refuse_remove := (\<lambda>q. if q = p then Some (e, []) else None)\<rparr>"

section \<open>Properties\<close>

subsection \<open>Strings\<close>

lemma Split_not_Nil: "Split s sep \<noteq> []"
  by (subst Split.simps) (simp split: list.splits)

lemma Repo_run_error_is_git:
  "fst (Repo_run git path args w) \<noteq> Inl ''could not parse default branch''"
  by (auto simp: Repo_run_def Let_def split: prod.splits option.splits)

subsection \<open>The default branch\<close>

text \<open>
  C10. In \<open>DefaultBranch\<close> the error \<open>could not parse default branch\<close> is never
  returned: splitting any string on \<open>/\<close> gives at least one piece, the errors of the
  \<open>symbolic-ref\<close> process are other errors, and whenever that process succeeds with the
  output \<open>out\<close>, \<open>DefaultBranch\<close> returns the last piece of the trimmed output.
\<close>

theorem DefaultBranch_parse_error_unreachable:
  "1 \<le> length (Split s CHR ''/'')
   \<and> fst (DefaultBranch git path w) \<noteq> Inl ''could not parse default branch''
   \<and> (\<forall>out w'. Repo_run git path [''symbolic-ref'', ''refs/remotes/origin/HEAD''] w = (Inr out, w')
         \<longrightarrow> DefaultBranch git path w = (Inr (last (Split (TrimSpace out) CHR ''/'')), w'))"
proof (intro conjI allI impI)
  show "1 \<le> length (Split s CHR ''/'')"
    using Split_not_Nil [of s "CHR ''/''"] by (cases "Split s CHR ''/''") auto
next
  show "fst (DefaultBranch git path w) \<noteq> Inl ''could not parse default branch''"
    using Repo_run_error_is_git [of git path "[''symbolic-ref'', ''refs/remotes/origin/HEAD'']" w]
      Split_not_Nil
    by (auto simp: DefaultBranch_def Let_def split: prod.splits sum.splits)
next
  fix out w'
  assume "Repo_run git path [''symbolic-ref'', ''refs/remotes/origin/HEAD''] w = (Inr out, w')"
  then show "DefaultBranch git path w = (Inr (last (Split (TrimSpace out) CHR ''/'')), w')"
    using Split_not_Nil [of "TrimSpace out" "CHR ''/''"]
    by (simp add: DefaultBranch_def Let_def last_conv_nth)
qed

theorem DefaultBranch_parse_error_unreachable_witness:
  "Repo_run scripted ''/w/a'' [''symbolic-ref'', ''refs/remotes/origin/HEAD'']
       (world_of tree_a [ok ''refs/remotes/origin/main  ''])
     = (Inr ''refs/remotes/origin/main  '',
        (world_of tree_a [])\<lparr>events := [Exec ''/w/a'' [''symbolic-ref'', ''refs/remotes/origin/HEAD'']]\<rparr>)
   \<and> fst (DefaultBranch scripted ''/w/a'' (world_of tree_a [ok ''refs/remotes/origin/main  '']))
     = Inr ''main''"
proof -
  have r: "Repo_run scripted ''/w/a'' [''symbolic-ref'', ''refs/remotes/origin/HEAD'']
       (world_of tree_a [ok ''refs/remotes/origin/main  ''])
     = (Inr ''refs/remotes/origin/main  '',
        (world_of tree_a [])\<lparr>events := [Exec ''/w/a'' [''symbolic-ref'', ''refs/remotes/origin/HEAD'']]\<rparr>)"
    by (simp add: Repo_run_def cmd_Run_def scripted_def ok_def world_of_def)
  have l: "last (Split (TrimSpace ''refs/remotes/origin/main  '') CHR ''/'') = ''main''"
    by (simp add: TrimSpace_def trimLeft.simps spaceRunes_def Split.simps)
  from DefaultBranch_parse_error_unreachable
         [of _ scripted "''/w/a''" "world_of tree_a [ok ''refs/remotes/origin/main  '']"] r l
  show ?thesis by simp
qed

subsection \<open>The clone URL\<close>

text \<open>
  C9, as the claim states it, fails on the second listing: its \<open>repoPathToURL\<close> has no
  rule for the environment and never produces the \<open>https\<close> URL.
\<close>

theorem repoPathToURL2_never_https:
  "repoPathToURL2 ''github.com/bep/gitjoin'' = ''git@github.com:bep/gitjoin.git''
   \<and> repoPathToURL2 ''github.com/bep/gitjoin'' \<noteq> ''https://github.com/bep/gitjoin.git''"
  by (simp add: repoPathToURL2_def SplitN2_def)

text \<open>
  C9, amended. For every remote identifier \<open>host/rest\<close> (the host has no slash): in the
  first listing the URL is \<open>https://host/rest.git\<close> when the environment variable
  \<open>GITHUB_ACTIONS\<close> is not empty and \<open>git@host:rest.git\<close> otherwise; in the second listing
  it is \<open>git@host:rest.git\<close> whatever the environment.
\<close>

theorem repoPathToURL_by_environment:
  "CHR ''/'' \<notin> set host \<Longrightarrow>
     repoPathToURL w (host @ ''/'' @ rest)
       = (if getenv w ''GITHUB_ACTIONS'' \<noteq> [] then ''https://'' @ host @ ''/'' @ rest @ ''.git''
          else ''git@'' @ host @ '':'' @ rest @ ''.git'')
     \<and> repoPathToURL2 (host @ ''/'' @ rest) = ''git@'' @ host @ '':'' @ rest @ ''.git''"
  by (simp add: repoPathToURL_def repoPathToURL2_def SplitN2_def Let_def
      dropWhile_append takeWhile_append)

theorem repoPathToURL_by_environment_witness:
  "CHR ''/'' \<notin> set ''github.com''
   \<and> repoPathToURL ((world_of tree_a [])\<lparr>getenv := (\<lambda>k. if k = ''GITHUB_ACTIONS'' then ''true'' else [])\<rparr>)
        ''github.com/bep/gitjoin'' = ''https://github.com/bep/gitjoin.git''
   \<and> repoPathToURL (world_of tree_a []) ''github.com/bep/gitjoin'' = ''git@github.com:bep/gitjoin.git''
   \<and> repoPathToURL2 ''github.com/bep/gitjoin'' = ''git@github.com:bep/gitjoin.git''"
  using repoPathToURL_by_environment
          [of "''github.com''"
              "(world_of tree_a [])\<lparr>getenv := (\<lambda>k. if k = ''GITHUB_ACTIONS'' then ''true'' else [])\<rparr>"
              "''bep/gitjoin''"]
        repoPathToURL_by_environment [of "''github.com''" "world_of tree_a []" "''bep/gitjoin''"]
  by (simp add: world_of_def)

subsection \<open>The synchronisation of one repository\<close>

lemma events_Repo_run:
  "Repo_run git path args w = (r, w') \<Longrightarrow> events w' = events w @ [Exec path args]"
  by (auto simp: Repo_run_def cmd_Run_def Let_def split: prod.splits option.splits)

lemma events_DefaultBranch:
  "DefaultBranch git path w = (r, w') \<Longrightarrow>
     events w' = events w @ [Exec path [''symbolic-ref'', ''refs/remotes/origin/HEAD'']]"
  by (auto simp: DefaultBranch_def Let_def split: prod.splits sum.splits if_splits
      dest: events_Repo_run)

lemma events_CurrentBranch:
  "CurrentBranch git path w = (r, w') \<Longrightarrow>
     events w' = events w @ [Exec path [''branch'', ''--show-current'']]"
  by (auto simp: CurrentBranch_def split: prod.splits sum.splits dest: events_Repo_run)

lemma events_HasUncommittedChanges:
  "HasUncommittedChanges git path w = (r, w') \<Longrightarrow>
     events w' = events w @ [Exec path [''status'', ''--porcelain'']]"
  by (auto simp: HasUncommittedChanges_def split: prod.splits sum.splits dest: events_Repo_run)

lemma events_ChangesSummary:
  "ChangesSummary git path w = (r, w') \<Longrightarrow>
     events w' = events w @ [Exec path [''status'', ''--porcelain'']]"
  by (auto simp: ChangesSummary_def Let_def split: prod.splits sum.splits if_splits
      dest: events_Repo_run)

lemma events_Unstash:
  "Unstash git path w = (r, w') \<Longrightarrow> events w' = events w @ [Exec path [''stash'', ''pop'']]"
  by (auto simp: Unstash_def split: prod.splits sum.splits dest: events_Repo_run)

lemma processRepo_checkout:
  assumes "os_Stat (filepath_Join [Root cfg, lp]) w \<noteq> NotExist"
    and "IsGitRepo (filepath_Join [Root cfg, lp]) w"
    and "DefaultBranch git (filepath_Join [Root cfg, lp]) w = (Inr d, w1)"
    and "CurrentBranch git (filepath_Join [Root cfg, lp]) w1 = (Inr c, w2)"
    and "HasUncommittedChanges git (filepath_Join [Root cfg, lp]) w2 = (Inr dirty, w3)"
  shows "processRepo git cfg False lp rp (res, ex, w) =
           (case (if \<not> Force cfg then syncPlain git (filepath_Join [Root cfg, lp]) lp d c dirty res w3
                  else syncForce git (filepath_Join [Root cfg, lp]) lp d c dirty res w3) of
              (err, res', w4) \<Rightarrow> (err, res', insert lp ex, w4))"
  using assms by (cases "os_Stat (filepath_Join [Root cfg, lp]) w") (simp_all add: processRepo_def Let_def)

lemma syncRepo2_checkout:
  assumes "os_Stat (filepath_Join [Root cfg, lp]) w \<noteq> NotExist"
    and "IsGitRepo (filepath_Join [Root cfg, lp]) w"
    and "DefaultBranch git (filepath_Join [Root cfg, lp]) w = (Inr d, w1)"
    and "CurrentBranch git (filepath_Join [Root cfg, lp]) w1 = (Inr c, w2)"
    and "HasUncommittedChanges git (filepath_Join [Root cfg, lp]) w2 = (Inr dirty, w3)"
  shows "syncRepo2 git cfg (res, ex, w) (lp, rp) =
           (case (if \<not> Force cfg then syncPlain2 git (filepath_Join [Root cfg, lp]) lp d c dirty res w3
                  else syncForce2 git (filepath_Join [Root cfg, lp]) lp d c dirty res w3) of
              (res', w4) \<Rightarrow> (res', insert lp ex, w4))"
  using assms by (cases "os_Stat (filepath_Join [Root cfg, lp]) w") (simp_all add: syncRepo2_def Let_def)

lemma events_Stash:
  "Stash git path w = (r, w') \<Longrightarrow>
     events w' = events w @ [Exec path [''stash'', ''push'', ''-m'', ''gitjoin'']]"
  by (auto simp: Stash_def split: prod.splits sum.splits dest: events_Repo_run)

lemma events_SwitchBranch:
  "SwitchBranch git path b w = (r, w') \<Longrightarrow> events w' = events w @ [Exec path [''switch'', b]]"
  by (auto simp: SwitchBranch_def split: prod.splits sum.splits dest: events_Repo_run)

lemma Pull_unfold:
  assumes "Repo_run git path [''rev-parse'', ''HEAD''] w = (hb, wa)"
    and "Repo_run git path [''pull''] wa = (pl, wb)"
    and "Repo_run git path [''rev-parse'', ''HEAD''] wb = (ha, wc)"
  shows "Pull git path w =
           (case hb of
              Inl e \<Rightarrow> (Inl e, wa)
            | Inr headBefore \<Rightarrow>
                (case pl of
                   Inl e \<Rightarrow> (Inl e, wb)
                 | Inr out \<Rightarrow>
                     (case ha of
                        Inl e \<Rightarrow> (Inl e, wc)
                      | Inr headAfter \<Rightarrow> (Inr (headBefore \<noteq> headAfter), wc))))"
  using assms by (simp add: Pull_def split: sum.splits)

subsection \<open>The order of the tasks and the worker pool\<close>

lemma pickOrder_set: "set (pickOrder cs xs) = set xs"
proof (induction cs xs rule: pickOrder.induct)
  case (3 c cs x xs)
  define l where "l = x # xs"
  define k where "k = c mod length l"
  have k: "k < length l" by (simp add: k_def l_def)
  have ih: "set (pickOrder cs (take k l @ drop (Suc k) l)) = set (take k l @ drop (Suc k) l)"
    using "3.IH" [of k] by (simp add: k_def l_def)
  have p: "pickOrder (c # cs) (x # xs) = l ! k # pickOrder cs (take k l @ drop (Suc k) l)"
    by (simp add: k_def l_def Let_def)
  have A: "set (pickOrder (c # cs) (x # xs)) = insert (l ! k) (set (take k l) \<union> set (drop (Suc k) l))"
    unfolding p using ih by simp
  have "set l = set (take k l @ l ! k # drop (Suc k) l)"
    by (rule arg_cong [OF id_take_nth_drop [OF k]])
  then have B: "set l = insert (l ! k) (set (take k l) \<union> set (drop (Suc k) l))"
    by simp
  from A B have "set (pickOrder (c # cs) (x # xs)) = set l" by simp
  then show ?case by (simp only: l_def)
qed simp_all

lemma runWorkers_error_kept:
  "err \<noteq> None \<Longrightarrow> fst (runWorkers git cfg late ps err st) = err"
  by (induction ps arbitrary: late st) (auto simp: Let_def split: prod.splits)

lemma runWorkers_append:
  "runWorkers git cfg late (ps @ qs) err st =
     (case runWorkers git cfg late ps err st of
        (err', st') \<Rightarrow> runWorkers git cfg (drop (length ps) late) qs err' st')"
  by (induction ps arbitrary: late err st) (auto simp: Let_def drop_Suc split: prod.splits)

lemma runWorkers_first_error:
  assumes "runWorkers git cfg late ps None st = (None, st1)"
    and "processRepo git cfg False lp rp st1 = (Some e, st2)"
  shows "fst (runWorkers git cfg late (ps @ (lp, rp) # qs) None st) = Some e"
  using assms
    runWorkers_error_kept [of "Some e" git cfg "tl (drop (length ps) late)" qs st2]
  by (simp add: runWorkers_append Let_def split: prod.splits)

lemma run_first_error:
  assumes "collectExpectedRepos match cfg w0 = Inr expected"
    and "pickOrder order expected = ps @ (lp, rp) # qs"
    and "runWorkers git cfg late ps None (Result0, {}, w0) = (None, st1)"
    and "processRepo git cfg False lp rp st1 = (Some e, st2)"
  shows "snd (fst (run git match cfg order late w0)) = Some e"
proof -
  obtain err st3 where r: "runWorkers git cfg late (ps @ (lp, rp) # qs) None (Result0, {}, w0) = (err, st3)"
    by (metis surj_pair)
  with runWorkers_first_error [OF assms(3,4), of qs] have "err = Some e" by simp
  with r assms(1,2) show ?thesis
    by (simp add: run_def split: prod.splits)
qed


text \<open>Definitions to unfold in concrete runs.\<close>

lemmas git_eval = Repo_run_def cmd_Run_def scripted_def ok_def failed_def world_of_def
  DefaultBranch_def CurrentBranch_def HasUncommittedChanges_def ChangesSummary_def Pull_def
  Stash_def Unstash_def SwitchBranch_def clone_def TrimSpace_def trimLeft.simps spaceRunes_def Split.simps
  newline_def Let_def Contains_def Itoa.simps

lemmas path_eval = filepath_Join_def Clean_def cleanStep_def os_Stat_def path_elems_def
  IsGitRepo_def tree_a_def cfg_w_def Split.simps Let_def

lemma full_a: "filepath_Join [Root (cfg_w f), ''a''] = ''/w/a''"
  by (simp add: path_eval)

lemma stat_a: "os_Stat ''/w/a'' (world_of tree_a s) \<noteq> NotExist"
  by (simp add: path_eval world_of_def)

lemma isgit_a: "IsGitRepo ''/w/a'' (world_of tree_a s)"
  by (simp add: path_eval world_of_def)

lemmas walk_eval = collectExpectedRepos_def findAllGitRepos_def WalkDir_def collectFn_def findFn_def
  parseGitjoinFile_def walkPath_def relDirOf_def Base_def HasPrefix_def literal_def tree_new_def

lemmas sync_eval = run_def run2_def processRepo_def syncRepo2_def syncForce_def syncForce2_def
  syncPlain_def syncPlain2_def repoPathToURL_def repoPathToURL2_def SplitN2_def Result0_def
  script_dirty_def script_conflict_def

lemmas ignore_eval = updateGitignore_def managedBlock_def newContent_def os_ReadFile_def os_WriteFile_def
  os_Stat_def path_elems_def filepath_Join_def Clean_def cleanStep_def Split.simps cfg_w_def world_of_def
  tree_stray_def tree_ignore_def gitignoreStart_def gitignoreEnd_def HasSuffix_def suffix_to_prefix
  newline_def ToSlash_def Let_def Contains_def

subsection \<open>Without the force flag\<close>

lemma DefaultBranch_last:
  "Repo_run git path [''symbolic-ref'', ''refs/remotes/origin/HEAD''] w = (Inr out, w') \<Longrightarrow>
     DefaultBranch git path w = (Inr (last (Split (TrimSpace out) CHR ''/'')), w')"
  using Split_not_Nil [of "TrimSpace out" "CHR ''/''"]
  by (simp add: DefaultBranch_def Let_def last_conv_nth)

text \<open>
  What the two listings do with an existing checkout without the force flag, from what
  the \<open>git\<close> processes print. The default branch \<open>d\<close> is the last piece of the
  symbolic reference of the remote, the current branch \<open>c\<close> is what \<open>git branch\<close>
  prints, and the checkout is dirty when \<open>git status\<close> prints something. A dirty
  checkout is skipped after the \<open>status\<close> of the summary, a checkout with \<open>c \<noteq> d\<close> is
  skipped and no further process is started; otherwise \<open>rev-parse\<close>, \<open>pull\<close> and
  \<open>rev-parse\<close> run, and the Updated entry is appended exactly when the two heads differ.
\<close>

lemma sync_without_force:
  assumes "\<not> Force cfg"
    and "full = filepath_Join [Root cfg, lp]"
    and "os_Stat full w \<noteq> NotExist"
    and "IsGitRepo full w"
    and "Repo_run git full [''symbolic-ref'', ''refs/remotes/origin/HEAD''] w = (Inr ref, w1)"
    and "Repo_run git full [''branch'', ''--show-current''] w1 = (Inr cur, w2)"
    and "Repo_run git full [''status'', ''--porcelain''] w2 = (Inr st, w3)"
    and "d = last (Split (TrimSpace ref) CHR ''/'')"
    and "c = TrimSpace cur"
    and "dirty = (TrimSpace st \<noteq> [])"
    and "ChangesSummary git full w3 = (summary, ws)"
    and "Repo_run git full [''rev-parse'', ''HEAD''] w3 = (hb, wa)"
    and "Repo_run git full [''pull''] wa = (pl, wb)"
    and "Repo_run git full [''rev-parse'', ''HEAD''] wb = (ha, wc)"
  shows
    "processRepo git cfg False lp rp (res, ex, w) =
       (if dirty then
          (None,
           res\<lparr>Skipped := Skipped res
              @ [\<lparr>SPath = lp, Reason = ''uncommitted changes'', SDetail = summary\<rparr>]\<rparr>,
           insert lp ex, ws)
        else if c \<noteq> d then
          (None,
           res\<lparr>Skipped := Skipped res
              @ [\<lparr>SPath = lp, Reason = ''non-default branch'', SDetail = ''on '' @ c\<rparr>]\<rparr>,
           insert lp ex, w3)
        else
          (case hb of
             Inl e \<Rightarrow> (Some (lp @ '': pull: '' @ e), res, insert lp ex, wa)
           | Inr headBefore \<Rightarrow>
               (case pl of
                  Inl e \<Rightarrow> (Some (lp @ '': pull: '' @ e), res, insert lp ex, wb)
                | Inr out \<Rightarrow>
                    (case ha of
                       Inl e \<Rightarrow> (Some (lp @ '': pull: '' @ e), res, insert lp ex, wc)
                     | Inr headAfter \<Rightarrow>
                         (None,
                          (if headBefore \<noteq> headAfter
                           then res\<lparr>Updated := Updated res @ [\<lparr>Path = lp, Detail = ''pulled''\<rparr>]\<rparr>
                           else res),
                          insert lp ex, wc)))))"
    and "syncRepo2 git cfg (res, ex, w) (lp, rp) =
       (if dirty then
          (res\<lparr>Skipped := Skipped res
              @ [\<lparr>SPath = lp, Reason = ''uncommitted changes'', SDetail = summary\<rparr>]\<rparr>,
           insert lp ex, ws)
        else if c \<noteq> d then
          (res\<lparr>Skipped := Skipped res
              @ [\<lparr>SPath = lp, Reason = ''non-default branch'', SDetail = ''on '' @ c\<rparr>]\<rparr>,
           insert lp ex, w3)
        else
          (case hb of
             Inl e \<Rightarrow> (res\<lparr>Warnings := Warnings res @ [''pull failed: '' @ lp @ '': '' @ e]\<rparr>,
                       insert lp ex, wa)
           | Inr headBefore \<Rightarrow>
               (case pl of
                  Inl e \<Rightarrow> (res\<lparr>Warnings := Warnings res @ [''pull failed: '' @ lp @ '': '' @ e]\<rparr>,
                            insert lp ex, wb)
                | Inr out \<Rightarrow>
                    (case ha of
                       Inl e \<Rightarrow> (res\<lparr>Warnings := Warnings res @ [''pull failed: '' @ lp @ '': '' @ e]\<rparr>,
                                 insert lp ex, wc)
                     | Inr headAfter \<Rightarrow>
                         ((if headBefore \<noteq> headAfter
                           then res\<lparr>Updated := Updated res @ [\<lparr>Path = lp, Detail = ''pulled''\<rparr>]\<rparr>
                           else res),
                          insert lp ex, wc)))))"
    and "events w3 = events w @ [Exec full [''symbolic-ref'', ''refs/remotes/origin/HEAD''],
                               Exec full [''branch'', ''--show-current''],
                               Exec full [''status'', ''--porcelain'']]"
    and "events ws = events w3 @ [Exec full [''status'', ''--porcelain'']]"
    and "events wa = events w3 @ [Exec full [''rev-parse'', ''HEAD'']]"
    and "events wb = events wa @ [Exec full [''pull'']]"
    and "events wc = events wb @ [Exec full [''rev-parse'', ''HEAD'']]"
proof -
  have db: "DefaultBranch git (filepath_Join [Root cfg, lp]) w = (Inr d, w1)"
    using assms(2,5,8) by (simp add: DefaultBranch_last)
  have cb: "CurrentBranch git (filepath_Join [Root cfg, lp]) w1 = (Inr c, w2)"
    using assms(2,6,9) by (simp add: CurrentBranch_def)
  have hc: "HasUncommittedChanges git (filepath_Join [Root cfg, lp]) w2 = (Inr dirty, w3)"
    using assms(2,7,10) by (simp add: HasUncommittedChanges_def)
  have st: "os_Stat (filepath_Join [Root cfg, lp]) w \<noteq> NotExist"
    "IsGitRepo (filepath_Join [Root cfg, lp]) w"
    using assms(2-4) by simp_all
  note pu = Pull_unfold [OF assms(12-14)]
  show "processRepo git cfg False lp rp (res, ex, w) =
       (if dirty then
          (None,
           res\<lparr>Skipped := Skipped res
              @ [\<lparr>SPath = lp, Reason = ''uncommitted changes'', SDetail = summary\<rparr>]\<rparr>,
           insert lp ex, ws)
        else if c \<noteq> d then
          (None,
           res\<lparr>Skipped := Skipped res
              @ [\<lparr>SPath = lp, Reason = ''non-default branch'', SDetail = ''on '' @ c\<rparr>]\<rparr>,
           insert lp ex, w3)
        else
          (case hb of
             Inl e \<Rightarrow> (Some (lp @ '': pull: '' @ e), res, insert lp ex, wa)
           | Inr headBefore \<Rightarrow>
               (case pl of
                  Inl e \<Rightarrow> (Some (lp @ '': pull: '' @ e), res, insert lp ex, wb)
                | Inr out \<Rightarrow>
                    (case ha of
                       Inl e \<Rightarrow> (Some (lp @ '': pull: '' @ e), res, insert lp ex, wc)
                     | Inr headAfter \<Rightarrow>
                         (None,
                          (if headBefore \<noteq> headAfter
                           then res\<lparr>Updated := Updated res @ [\<lparr>Path = lp, Detail = ''pulled''\<rparr>]\<rparr>
                           else res),
                          insert lp ex, wc)))))"
    using assms(1,11) pu unfolding assms(2)
    by (simp add: processRepo_checkout [OF st db cb hc] syncPlain_def split: sum.splits)
  show "syncRepo2 git cfg (res, ex, w) (lp, rp) =
       (if dirty then
          (res\<lparr>Skipped := Skipped res
              @ [\<lparr>SPath = lp, Reason = ''uncommitted changes'', SDetail = summary\<rparr>]\<rparr>,
           insert lp ex, ws)
        else if c \<noteq> d then
          (res\<lparr>Skipped := Skipped res
              @ [\<lparr>SPath = lp, Reason = ''non-default branch'', SDetail = ''on '' @ c\<rparr>]\<rparr>,
           insert lp ex, w3)
        else
          (case hb of
             Inl e \<Rightarrow> (res\<lparr>Warnings := Warnings res @ [''pull failed: '' @ lp @ '': '' @ e]\<rparr>,
                       insert lp ex, wa)
           | Inr headBefore \<Rightarrow>
               (case pl of
                  Inl e \<Rightarrow> (res\<lparr>Warnings := Warnings res @ [''pull failed: '' @ lp @ '': '' @ e]\<rparr>,
                            insert lp ex, wb)
                | Inr out \<Rightarrow>
                    (case ha of
                       Inl e \<Rightarrow> (res\<lparr>Warnings := Warnings res @ [''pull failed: '' @ lp @ '': '' @ e]\<rparr>,
                                 insert lp ex, wc)
                     | Inr headAfter \<Rightarrow>
                         ((if headBefore \<noteq> headAfter
                           then res\<lparr>Updated := Updated res @ [\<lparr>Path = lp, Detail = ''pulled''\<rparr>]\<rparr>
                           else res),
                          insert lp ex, wc)))))"
    using assms(1,11) pu unfolding assms(2)
    by (simp add: syncRepo2_checkout [OF st db cb hc] syncPlain2_def split: sum.splits)
  show "events w3 = events w @ [Exec full [''symbolic-ref'', ''refs/remotes/origin/HEAD''],
                               Exec full [''branch'', ''--show-current''],
                               Exec full [''status'', ''--porcelain'']]"
    using assms(5-7) by (simp add: events_Repo_run)
  show "events ws = events w3 @ [Exec full [''status'', ''--porcelain'']]"
    using assms(11) by (rule events_ChangesSummary)
  show "events wa = events w3 @ [Exec full [''rev-parse'', ''HEAD'']]"
    using assms(12) by (rule events_Repo_run)
  show "events wb = events wa @ [Exec full [''pull'']]"
    using assms(13) by (rule events_Repo_run)
  show "events wc = events wb @ [Exec full [''rev-parse'', ''HEAD'']]"
    using assms(14) by (rule events_Repo_run)
qed

text \<open>
  C4 holds of the code as long as the name of the default branch has no slash, and
  fails by a slip in \<open>DefaultBranch\<close> when it has one: \<open>DefaultBranch\<close> keeps the last
  piece of \<open>refs/remotes/origin/release/1.0\<close> only, \<open>CurrentBranch\<close> returns the whole
  name, and the two are compared. A clean checkout on its default branch \<open>release/1.0\<close>
  is skipped as being on a branch that is not the default branch, in both listings, and
  no pull is started: the three processes of the inspection are the only ones.
\<close>

theorem default_branch_with_slash_skipped:
  "fst (DefaultBranch scripted ''/w/a'' (world_of tree_a script_release)) = Inr ''1.0''
   \<and> fst (run scripted literal (cfg_w False) [] [] (world_of tree_a script_release))
     = (Result0\<lparr>Skipped := [\<lparr>SPath = ''a'', Reason = ''non-default branch'',
                               SDetail = ''on release/1.0''\<rparr>]\<rparr>, None)
   \<and> fst (run2 scripted literal (cfg_w False) [] (world_of tree_a script_release))
     = (Result0\<lparr>Skipped := [\<lparr>SPath = ''a'', Reason = ''non-default branch'',
                               SDetail = ''on release/1.0''\<rparr>]\<rparr>, None)
   \<and> events (snd (run2 scripted literal (cfg_w False) [] (world_of tree_a script_release)))
     = [Exec ''/w/a'' [''symbolic-ref'', ''refs/remotes/origin/HEAD''],
        Exec ''/w/a'' [''branch'', ''--show-current''],
        Exec ''/w/a'' [''status'', ''--porcelain'']]
   \<and> filter (\<lambda>ev. case ev of Exec dir args \<Rightarrow> True | _ \<Rightarrow> False)
        (events (snd (run scripted literal (cfg_w False) [] [] (world_of tree_a script_release))))
     = [Exec ''/w/a'' [''symbolic-ref'', ''refs/remotes/origin/HEAD''],
        Exec ''/w/a'' [''branch'', ''--show-current''],
        Exec ''/w/a'' [''status'', ''--porcelain'']]"
proof -
  note ev = sync_eval walk_eval path_eval git_eval script_release_def
  let ?w = "world_of tree_a script_release"
  have c: "collectExpectedRepos literal (cfg_w False) ?w = Inr [(''a'', ''github.com/bep/a'')]"
    by (simp add: ev)
  have d: "fst (DefaultBranch scripted ''/w/a'' ?w) = Inr ''1.0''"
    by (simp add: ev)
  have b: "syncRepo2 scripted (cfg_w False) (Result0, {}, ?w) (''a'', ''github.com/bep/a'')
      = (Result0\<lparr>Skipped := [\<lparr>SPath = ''a'', Reason = ''non-default branch'',
                                SDetail = ''on release/1.0''\<rparr>]\<rparr>, {''a''},
         (world_of tree_a (drop 3 script_release))
           \<lparr>events := [Exec ''/w/a'' [''symbolic-ref'', ''refs/remotes/origin/HEAD''],
                       Exec ''/w/a'' [''branch'', ''--show-current''],
                       Exec ''/w/a'' [''status'', ''--porcelain'']]\<rparr>)"
    by (simp add: ev)
  have p: "processRepo scripted (cfg_w False) False ''a'' ''github.com/bep/a'' (Result0, {}, ?w)
      = (None, Result0\<lparr>Skipped := [\<lparr>SPath = ''a'', Reason = ''non-default branch'',
                                      SDetail = ''on release/1.0''\<rparr>]\<rparr>, {''a''},
         (world_of tree_a (drop 3 script_release))
           \<lparr>events := [Exec ''/w/a'' [''symbolic-ref'', ''refs/remotes/origin/HEAD''],
                       Exec ''/w/a'' [''branch'', ''--show-current''],
                       Exec ''/w/a'' [''status'', ''--porcelain'']]\<rparr>)"
    by (simp add: ev)
  have r2: "run2 scripted literal (cfg_w False) [] ?w
      = ((Result0\<lparr>Skipped := [\<lparr>SPath = ''a'', Reason = ''non-default branch'',
                                 SDetail = ''on release/1.0''\<rparr>]\<rparr>, None),
         (world_of tree_a (drop 3 script_release))
           \<lparr>events := [Exec ''/w/a'' [''symbolic-ref'', ''refs/remotes/origin/HEAD''],
                       Exec ''/w/a'' [''branch'', ''--show-current''],
                       Exec ''/w/a'' [''status'', ''--porcelain'']]\<rparr>)"
    unfolding run2_def c by (simp add: b) (simp add: ev)
  have r1: "fst (run scripted literal (cfg_w False) [] [] ?w)
      = (Result0\<lparr>Skipped := [\<lparr>SPath = ''a'', Reason = ''non-default branch'',
                                SDetail = ''on release/1.0''\<rparr>]\<rparr>, None)
    \<and> filter (\<lambda>ev. case ev of Exec dir args \<Rightarrow> True | _ \<Rightarrow> False)
        (events (snd (run scripted literal (cfg_w False) [] [] ?w)))
      = [Exec ''/w/a'' [''symbolic-ref'', ''refs/remotes/origin/HEAD''],
         Exec ''/w/a'' [''branch'', ''--show-current''],
         Exec ''/w/a'' [''status'', ''--porcelain'']]"
    unfolding run_def c by (simp add: p) (simp add: ev ignore_eval)
  from d r1 r2 show ?thesis by simp
qed

subsection \<open>With the force flag\<close>

text \<open>
  C3. For a dirty checkout on a branch that is not the default branch, synchronised with
  the force flag, in both listings: the only Updated entry that can be appended has as
  its detail the steps \<open>stashed\<close>, \<open>switched to <default>\<close>, \<open>pulled\<close> (when the pull has
  changed the head) and \<open>unstashed\<close> (when the stash has been popped), in this order,
  joined by a comma and a blank. It is appended when stash, switch and pull succeed (in
  the first listing: and the pop succeeds too); otherwise no Updated entry is appended.
\<close>

theorem force_detail_order:
  assumes "Force cfg"
    and "full = filepath_Join [Root cfg, lp]"
    and "os_Stat full w \<noteq> NotExist"
    and "IsGitRepo full w"
    and "DefaultBranch git full w = (Inr d, w1)"
    and "CurrentBranch git full w1 = (Inr c, w2)"
    and "HasUncommittedChanges git full w2 = (Inr True, w3)"
    and "c \<noteq> d"
    and "Stash git full w3 = (se, w4)"
    and "SwitchBranch git full d w4 = (we, w5)"
    and "Pull git full w5 = (pr, w6)"
    and "Unstash git full w6 = (ue, w7)"
  shows
    "Updated (fst (syncRepo2 git cfg (res, ex, w) (lp, rp))) =
       (if se = None \<and> we = None then
          (case pr of
             Inl e \<Rightarrow> Updated res
           | Inr changed \<Rightarrow>
               Updated res @
               [\<lparr>Path = lp,
                 Detail = Join ([''stashed'', ''switched to '' @ d]
                                @ (if changed then [''pulled''] else [])
                                @ (if ue = None then [''unstashed''] else [])) '', ''\<rparr>])
        else Updated res)
     \<and> Updated (fst (snd (processRepo git cfg False lp rp (res, ex, w)))) =
       (if se = None \<and> we = None \<and> ue = None then
          (case pr of
             Inl e \<Rightarrow> Updated res
           | Inr changed \<Rightarrow>
               Updated res @
               [\<lparr>Path = lp,
                 Detail = Join ([''stashed'', ''switched to '' @ d]
                                @ (if changed then [''pulled''] else [])
                                @ [''unstashed'']) '', ''\<rparr>])
        else Updated res)"
proof (intro conjI)
  show "Updated (fst (syncRepo2 git cfg (res, ex, w) (lp, rp))) =
       (if se = None \<and> we = None then
          (case pr of
             Inl e \<Rightarrow> Updated res
           | Inr changed \<Rightarrow>
               Updated res @
               [\<lparr>Path = lp,
                 Detail = Join ([''stashed'', ''switched to '' @ d]
                                @ (if changed then [''pulled''] else [])
                                @ (if ue = None then [''unstashed''] else [])) '', ''\<rparr>])
        else Updated res)"
    using assms syncRepo2_checkout [of cfg lp w git d w1 c w2 True w3 res ex rp]
    by (cases se; cases we; cases pr; cases ue) (simp_all add: syncForce2_def)
next
  show "Updated (fst (snd (processRepo git cfg False lp rp (res, ex, w)))) =
       (if se = None \<and> we = None \<and> ue = None then
          (case pr of
             Inl e \<Rightarrow> Updated res
           | Inr changed \<Rightarrow>
               Updated res @
               [\<lparr>Path = lp,
                 Detail = Join ([''stashed'', ''switched to '' @ d]
                                @ (if changed then [''pulled''] else [])
                                @ [''unstashed'']) '', ''\<rparr>])
        else Updated res)"
    using assms processRepo_checkout [of cfg lp w git d w1 c w2 True w3 rp res ex]
    by (cases se; cases we; cases pr; cases ue) (simp_all add: syncForce_def)
qed


theorem force_detail_order_witness:
  "Updated (fst (syncRepo2 scripted (cfg_w True) (Result0, {}, world_of tree_a script_forced)
                   (''a'', ''github.com/bep/a'')))
     = [\<lparr>Path = ''a'', Detail = ''stashed, switched to main, pulled, unstashed''\<rparr>]
   \<and> Updated (fst (snd (processRepo scripted (cfg_w True) False ''a'' ''github.com/bep/a''
                          (Result0, {}, world_of tree_a script_forced))))
     = [\<lparr>Path = ''a'', Detail = ''stashed, switched to main, pulled, unstashed''\<rparr>]"
proof -
  note ev = sync_eval walk_eval path_eval git_eval script_forced_def
  let ?w = "world_of tree_a script_forced"
  let ?w1 = "snd (DefaultBranch scripted ''/w/a'' ?w)"
  let ?w2 = "snd (CurrentBranch scripted ''/w/a'' ?w1)"
  let ?w3 = "snd (HasUncommittedChanges scripted ''/w/a'' ?w2)"
  let ?w4 = "snd (Stash scripted ''/w/a'' ?w3)"
  let ?w5 = "snd (SwitchBranch scripted ''/w/a'' ''main'' ?w4)"
  let ?w6 = "snd (Pull scripted ''/w/a'' ?w5)"
  let ?w7 = "snd (Unstash scripted ''/w/a'' ?w6)"
  have h1: "Force (cfg_w True)" by (simp add: cfg_w_def)
  have h2: "''/w/a'' = filepath_Join [Root (cfg_w True), ''a'']" by (simp add: full_a)
  have h3: "os_Stat ''/w/a'' ?w \<noteq> NotExist" by (rule stat_a)
  have h4: "IsGitRepo ''/w/a'' ?w" by (rule isgit_a)
  have h5: "DefaultBranch scripted ''/w/a'' ?w = (Inr ''main'', ?w1)" by (simp add: ev)
  have h6: "CurrentBranch scripted ''/w/a'' ?w1 = (Inr ''dev'', ?w2)" by (simp add: ev)
  have h7: "HasUncommittedChanges scripted ''/w/a'' ?w2 = (Inr True, ?w3)" by (simp add: ev)
  have h8: "''dev'' \<noteq> ''main''" by simp
  have h9: "Stash scripted ''/w/a'' ?w3 = (None, ?w4)" by (simp add: ev)
  have h10: "SwitchBranch scripted ''/w/a'' ''main'' ?w4 = (None, ?w5)" by (simp add: ev)
  have h11: "Pull scripted ''/w/a'' ?w5 = (Inr True, ?w6)" by (simp add: ev)
  have h12: "Unstash scripted ''/w/a'' ?w6 = (None, ?w7)" by (simp add: ev)
  from force_detail_order [OF h1 h2 h3 h4 h5 h6 h7 h8 h9 h10 h11 h12,
      where rp = "''github.com/bep/a''" and res = Result0 and ex = "{}"]
  show ?thesis by (simp add: Result0_def)
qed

subsection \<open>The ignore file\<close>

lemma Index_at_head: "prefix m r \<Longrightarrow> Index r m = Some 0"
  by (cases r) auto

lemma Index_skip:
  "m \<noteq> [] \<Longrightarrow> hd m \<notin> set u \<Longrightarrow> Index (u @ r) m = map_option ((+) (length u)) (Index r m)"
proof (induction u)
  case Nil
  then show ?case by (simp add: option.map_ident)
next
  case (Cons a u)
  then have "\<not> prefix m (a # u @ r)"
    by (cases m) auto
  with Cons show ?case
    by (simp add: option.map_comp comp_def)
qed

lemma Index_no_straddle:
  assumes "m \<noteq> []" and "hd m \<notin> set (tl m)" and "r \<noteq> []" and "hd r = hd m"
  shows "Index pre m = None \<Longrightarrow> Index (pre @ r) m = map_option ((+) (length pre)) (Index r m)"
proof (induction pre)
  case Nil
  then show ?case by (simp add: option.map_ident)
next
  case (Cons a p)
  from Cons.prems have np: "\<not> prefix m (a # p)" and ip: "Index p m = None"
    by (auto split: if_splits)
  have "\<not> prefix m ((a # p) @ r)"
  proof
    assume "prefix m ((a # p) @ r)"
    with np obtain us where us: "m = (a # p) @ us" "prefix us r"
      using prefix_append [of m "a # p" r] by auto
    with np have "us \<noteq> []" by auto
    with us assms(3,4) have "hd us = hd m"
      by (cases us; cases r) auto
    moreover from us \<open>us \<noteq> []\<close> have "hd us \<in> set (tl m)"
      by (cases us) auto
    ultimately show False using assms(2) by simp
  qed
  with Cons.IH [OF ip] show ?case
    by (simp add: option.map_comp comp_def)
qed

lemma Index_take_None:
  "m \<noteq> [] \<Longrightarrow> Index c m = Some i \<Longrightarrow> j \<le> i \<Longrightarrow> Index (take j c) m = None"
proof (induction c arbitrary: i j)
  case Nil
  then show ?case by simp
next
  case (Cons a c)
  show ?case
  proof (cases j)
    case 0
    with Cons.prems show ?thesis by simp
  next
    case (Suc j')
    with Cons.prems have np: "\<not> prefix m (a # c)"
      by (auto split: if_splits)
    with Cons.prems obtain i' where i': "Index c m = Some i'" "i = Suc i'"
      by (auto split: if_splits)
    have "\<not> prefix m (a # take j' c)"
      using np by (metis Cons_prefix_Cons prefix_order.trans take_is_prefix prefix_order.refl)
    with Cons.IH [OF Cons.prems(1) i'(1), of j'] Cons.prems(3) Suc i' show ?thesis
      by simp
  qed
qed

lemma Index_snoc_None:
  "m \<noteq> [] \<Longrightarrow> x \<notin> set m \<Longrightarrow> Index c m = None \<Longrightarrow> Index (c @ [x]) m = None"
proof (induction c)
  case Nil
  then show ?case by (cases m) auto
next
  case (Cons a c)
  from Cons.prems have np: "\<not> prefix m (a # c)" and ip: "Index c m = None"
    by (auto split: if_splits)
  have "\<not> prefix m ((a # c) @ [x])"
  proof
    assume "prefix m ((a # c) @ [x])"
    with np obtain us where "m = (a # c) @ us" "prefix us [x]"
      using prefix_append [of m "a # c" "[x]"] by auto
    with np Cons.prems(2) show False
      by (cases us) auto
  qed
  with Cons.IH [OF Cons.prems(1,2) ip] show ?case by simp
qed

lemma Index_after_sep:
  "m \<noteq> [] \<Longrightarrow> x \<notin> set m \<Longrightarrow> Index (u @ [x]) m = None
     \<Longrightarrow> Index (u @ [x] @ v) m = map_option ((+) (length u + 1)) (Index v m)"
proof (induction u)
  case Nil
  then have "\<not> prefix m (x # v)" by (cases m) auto
  then show ?case by (simp add: option.map_comp comp_def)
next
  case (Cons a u)
  from Cons.prems have np: "\<not> prefix m (a # u @ [x])" and ip: "Index (u @ [x]) m = None"
    by (auto split: if_splits)
  have "\<not> prefix m ((a # u @ [x]) @ v)"
  proof
    assume "prefix m ((a # u @ [x]) @ v)"
    with np obtain us where "m = (a # u @ [x]) @ us"
      using prefix_append [of m "a # u @ [x]" v] by auto
    with Cons.prems(2) show False by auto
  qed
  with Cons.IH [OF Cons.prems(1,2) ip] show ?case
    by (simp add: option.map_comp comp_def)
qed

lemma Start_facts:
  "gitignoreStart \<noteq> []" "hd gitignoreStart = CHR ''#''" "CHR ''#'' \<notin> set (tl gitignoreStart)"
  "newline \<notin> set gitignoreStart"
  by (simp_all add: gitignoreStart_def newline_def)

lemma End_facts:
  "gitignoreEnd \<noteq> []" "hd gitignoreEnd = CHR ''#''" "CHR ''#'' \<notin> set (tl gitignoreEnd)"
  "newline \<notin> set gitignoreEnd" "CHR ''/'' \<notin> set gitignoreEnd"
  by (simp_all add: gitignoreEnd_def newline_def)

lemma Index_End_after_Start:
  "Index (gitignoreStart @ [newline] @ v) gitignoreEnd
     = map_option ((+) (length gitignoreStart + 1)) (Index v gitignoreEnd)"
proof -
  define u where "u = tl gitignoreStart @ [newline]"
  have s: "gitignoreStart @ [newline] @ v = CHR ''#'' # (u @ v)"
    by (simp add: u_def gitignoreStart_def)
  have l: "Suc (length u) = length gitignoreStart + 1"
    by (simp add: u_def gitignoreStart_def)
  have np: "\<not> prefix gitignoreEnd (CHR ''#'' # (u @ v))"
    by (simp add: u_def gitignoreStart_def gitignoreEnd_def)
  have "hd gitignoreEnd \<notin> set u"
    by (simp add: u_def gitignoreStart_def gitignoreEnd_def newline_def)
  from Index_skip [OF End_facts(1) this, of v]
  have k: "Index (u @ v) gitignoreEnd = map_option ((+) (length u)) (Index v gitignoreEnd)" .
  have "Index (CHR ''#'' # (u @ v)) gitignoreEnd = map_option Suc (Index (u @ v) gitignoreEnd)"
    using np by simp
  also have "\<dots> = map_option ((+) (Suc (length u))) (Index v gitignoreEnd)"
    unfolding k by (cases "Index v gitignoreEnd") simp_all
  finally show ?thesis unfolding s l .
qed

lemma newContent_replace:
  assumes "existing \<noteq> []"
    and "Index existing gitignoreStart = Some s"
    and "Index existing gitignoreEnd = Some e"
    and "s < e"
  shows "newContent existing managed
         = take s existing @ managed
           @ drop (if e + length gitignoreEnd < length existing
                      \<and> existing ! (e + length gitignoreEnd) = newline
                   then e + length gitignoreEnd + 1 else e + length gitignoreEnd) existing"
  using assms by (simp add: newContent_def Let_def)

lemma newContent_append:
  assumes "existing \<noteq> []"
    and "\<not> (\<exists>s e. Index existing gitignoreStart = Some s \<and> Index existing gitignoreEnd = Some e \<and> s < e)"
  shows "newContent existing managed
         = (if HasSuffix existing [newline] then existing else existing @ [newline])
           @ [newline] @ managed"
  using assms by (auto simp: newContent_def Let_def split: option.splits)

lemma newContent_fixpoint:
  assumes ps: "Index pre gitignoreStart = None"
    and pe: "Index pre gitignoreEnd = None"
    and be: "Index body gitignoreEnd = None"
  shows "newContent (pre @ (gitignoreStart @ [newline] @ body @ gitignoreEnd @ [newline]) @ post)
           (gitignoreStart @ [newline] @ body @ gitignoreEnd @ [newline])
         = pre @ (gitignoreStart @ [newline] @ body @ gitignoreEnd @ [newline]) @ post"
proof -
  define r where "r = gitignoreStart @ [newline] @ body @ gitignoreEnd @ [newline] @ post"
  define M where "M = gitignoreStart @ [newline] @ body @ gitignoreEnd @ [newline]"
  define A where "A = pre @ gitignoreStart @ [newline] @ body @ gitignoreEnd"
  define X where "X = pre @ r"
  have rne: "r \<noteq> []" using Start_facts(1) by (simp add: r_def)
  have hr: "hd r = CHR ''#''" using Start_facts(1,2) by (simp add: r_def)
  have "Index r gitignoreStart = Some 0"
    by (rule Index_at_head) (simp add: r_def)
  with Index_no_straddle [of gitignoreStart r pre] Start_facts rne hr ps
  have iS: "Index X gitignoreStart = Some (length pre)"
    by (simp add: X_def)
  have "Index (gitignoreEnd @ [newline] @ post) gitignoreEnd = Some 0"
    by (rule Index_at_head) simp
  with Index_no_straddle [of gitignoreEnd "gitignoreEnd @ [newline] @ post" body] End_facts be
  have "Index (body @ gitignoreEnd @ [newline] @ post) gitignoreEnd = Some (length body)"
    by simp
  with Index_End_after_Start [of "body @ gitignoreEnd @ [newline] @ post"]
  have "Index r gitignoreEnd = Some (length gitignoreStart + 1 + length body)"
    by (simp add: r_def)
  with Index_no_straddle [of gitignoreEnd r pre] End_facts rne hr pe
  have iE: "Index X gitignoreEnd = Some (length pre + (length gitignoreStart + 1 + length body))"
    by (simp add: X_def)
  have XA: "X = A @ newline # post" by (simp add: X_def r_def A_def)
  have XM: "X = pre @ M @ post" by (simp add: X_def r_def M_def)
  have lA: "length pre + (length gitignoreStart + 1 + length body) + length gitignoreEnd = length A"
    by (simp add: A_def)
  have Xne: "X \<noteq> []" using rne by (simp add: X_def)
  have lt: "length pre < length pre + (length gitignoreStart + 1 + length body)" by simp
  have n: "X ! length A = newline" unfolding XA by (rule nth_append_length)
  have ll: "length A < length X" unfolding XA by simp
  have d: "drop (length A + 1) X = post" unfolding XA by simp
  have t: "take (length pre) X = pre" unfolding XM by simp
  from newContent_replace [OF Xne iS iE lt, of M]
  have "newContent X M = take (length pre) X @ M
           @ drop (if length A < length X \<and> X ! length A = newline then length A + 1 else length A) X"
    unfolding lA .
  then have "newContent X M = pre @ M @ post"
    using n ll d t by simp
  then show ?thesis
    unfolding XM [symmetric] unfolding X_def r_def M_def by simp
qed

lemma Index_lines_None:
  assumes "m \<noteq> []" and "x \<notin> set m"
  shows "(\<forall>l \<in> set ls. Index l m = None) \<Longrightarrow> Index (concat (map (\<lambda>p. p @ [x]) ls)) m = None"
proof (induction ls)
  case Nil
  with assms show ?case by simp
next
  case (Cons l ls)
  then have "Index (l @ [x]) m = None" "Index (concat (map (\<lambda>p. p @ [x]) ls)) m = None"
    using assms by (simp_all add: Index_snoc_None)
  with Index_after_sep [OF assms, of l "concat (map (\<lambda>p. p @ [x]) ls)"] show ?case
    by simp
qed

lemma managedBlock_shape:
  "managedBlock repos =
     gitignoreStart @ [newline]
     @ concat (map (\<lambda>p. p @ [newline]) (sort (map (\<lambda>p. p @ ''/'') (map fst repos))))
     @ gitignoreEnd @ [newline]"
  by (simp add: managedBlock_def ToSlash_def case_prod_unfold comp_def)

lemma managedBlock_body_None:
  assumes "\<forall>p \<in> fst ` set repos. \<not> Contains p gitignoreEnd"
  shows "Index (concat (map (\<lambda>p. p @ [newline]) (sort (map (\<lambda>p. p @ ''/'') (map fst repos)))))
           gitignoreEnd = None"
proof (rule Index_lines_None [OF End_facts(1) End_facts(4)])
  show "\<forall>l \<in> set (sort (map (\<lambda>p. p @ ''/'') (map fst repos))). Index l gitignoreEnd = None"
    using assms Index_snoc_None [OF End_facts(1) End_facts(5)]
    by (auto simp: Contains_def)
qed

lemma newContent_idempotent:
  assumes P1: "\<forall>p \<in> fst ` set repos. \<not> Contains p gitignoreEnd"
    and P2: "existing = []
       \<or> (\<not> Contains existing gitignoreStart \<and> \<not> Contains existing gitignoreEnd)
       \<or> (\<exists>s e. Index existing gitignoreStart = Some s \<and> Index existing gitignoreEnd = Some e \<and> s < e)"
  shows "newContent (newContent existing (managedBlock repos)) (managedBlock repos)
         = newContent existing (managedBlock repos)"
proof -
  define body where
    "body = concat (map (\<lambda>p. p @ [newline]) (sort (map (\<lambda>p. p @ ''/'') (map fst repos))))"
  have M: "managedBlock repos = gitignoreStart @ [newline] @ body @ gitignoreEnd @ [newline]"
    by (simp add: managedBlock_shape body_def)
  have be: "Index body gitignoreEnd = None"
    unfolding body_def using P1 by (rule managedBlock_body_None)
  have fp: "newContent (pre @ managedBlock repos @ post) (managedBlock repos) = pre @ managedBlock repos @ post"
    if "Index pre gitignoreStart = None" "Index pre gitignoreEnd = None" for pre post
    unfolding M using newContent_fixpoint [OF that be, of post] by simp
  consider (empty) "existing = []"
    | (replace) s e where "existing \<noteq> []" "Index existing gitignoreStart = Some s"
        "Index existing gitignoreEnd = Some e" "s < e"
    | (append) "existing \<noteq> []" "Index existing gitignoreStart = None" "Index existing gitignoreEnd = None"
    using P2 by (auto simp: Contains_def)
  then show ?thesis
  proof cases
    case empty
    have "newContent [] (managedBlock repos) = [] @ managedBlock repos @ []"
      by (simp add: newContent_def)
    with fp [of "[]" "[]"] Start_facts(1) End_facts(1) empty show ?thesis
      by simp
  next
    case replace
    from newContent_replace [OF replace, of "managedBlock repos"]
    obtain k where k: "newContent existing (managedBlock repos)
        = take s existing @ managedBlock repos @ drop k existing"
      by blast
    have "Index (take s existing) gitignoreStart = None"
      using Index_take_None [OF Start_facts(1) replace(2), of s] by simp
    moreover have "Index (take s existing) gitignoreEnd = None"
      using Index_take_None [OF End_facts(1) replace(3), of s] replace(4) by simp
    ultimately show ?thesis
      unfolding k by (rule fp)
  next
    case append
    define c where "c = (if HasSuffix existing [newline] then existing else existing @ [newline])"
    have k: "newContent existing (managedBlock repos) = (c @ [newline]) @ managedBlock repos @ []"
      using newContent_append [of existing "managedBlock repos"] append by (simp add: c_def)
    have "Index c gitignoreStart = None" "Index c gitignoreEnd = None"
      using append Index_snoc_None [OF Start_facts(1) Start_facts(4), of existing]
        Index_snoc_None [OF End_facts(1) End_facts(4), of existing]
      by (simp_all add: c_def)
    then have "Index (c @ [newline]) gitignoreStart = None" "Index (c @ [newline]) gitignoreEnd = None"
      using Index_snoc_None [OF Start_facts(1) Start_facts(4), of c]
        Index_snoc_None [OF End_facts(1) End_facts(4), of c]
      by simp_all
    then show ?thesis
      unfolding k by (rule fp)
  qed
qed

lemma put_lstat:
  "put_file ks c t = Some t' \<Longrightarrow> lstat ks t' = Found (File c)"
  "put_in k ks c es = Some es' \<Longrightarrow> lstat_in k ks es' = Found (File c)"
  by (induction ks c t and k ks c es arbitrary: t' and es' rule: put_file_put_in.induct)
     (auto split: node.splits if_splits)

lemma lstat_in_key: "lstat_in k ks es \<noteq> NotExist \<Longrightarrow> k \<in> set (map fst es)"
  by (induction es) (auto split: if_splits)

lemma put_same:
  "lstat ks t = Found (File c) \<Longrightarrow> put_file ks c t = Some t"
  "lstat_in k ks es = Found (File c) \<Longrightarrow> put_in k ks c es = Some es"
proof (induction ks c t and k ks c es rule: put_file_put_in.induct)
  case (6 k ks c k' n es)
  show ?case
  proof (cases "k = k'")
    case True
    with 6 show ?thesis by simp
  next
    case False
    with "6.prems" have l: "lstat_in k ks es = Found (File c)" by simp
    then have "k \<in> set (map fst es)" using lstat_in_key [of k ks es] by simp
    with False l "6.IH"(2) show ?thesis by simp
  qed
qed auto

lemma updateGitignore_written:
  assumes "updateGitignore cfg repos w = (None, w1)"
    and "existing = (case os_ReadFile (filepath_Join [Root cfg, ''.gitignore'']) w of Bytes c \<Rightarrow> c | _ \<Rightarrow> [])"
  shows "refuse_write w1 = refuse_write w"
    and "lstat (path_elems (filepath_Join [Root cfg, ''.gitignore''])) (fs w1)
         = Found (File (newContent existing (managedBlock repos)))"
    and "refuse_write w (filepath_Join [Root cfg, ''.gitignore'']) = None"
  using assms put_lstat(1)
  by (auto simp: updateGitignore_def os_WriteFile_def Let_def
      split: readres.splits option.splits)




text \<open>
  C5, as the claim states it, fails: on an ignore file that holds the end marker and
  no start marker before it, every application appends one more managed block.
\<close>

theorem updateGitignore_twice_differs:
  "updateGitignore (cfg_w False) [] (world_of tree_stray []) =
     (None, (world_of (Dir [(''w'', Dir [(''.gitignore'',
          File (gitignoreEnd @ [newline, newline] @ managedBlock []))])]) [])
        \<lparr>events := [WriteFile ''/w/.gitignore'' (gitignoreEnd @ [newline, newline] @ managedBlock [])]\<rparr>)
   \<and> os_ReadFile ''/w/.gitignore''
        (snd (updateGitignore (cfg_w False) []
           (snd (updateGitignore (cfg_w False) [] (world_of tree_stray [])))))
     = Bytes (gitignoreEnd @ [newline, newline] @ managedBlock [] @ [newline] @ managedBlock [])
   \<and> os_ReadFile ''/w/.gitignore''
        (snd (updateGitignore (cfg_w False) []
           (snd (updateGitignore (cfg_w False) [] (world_of tree_stray [])))))
     \<noteq> os_ReadFile ''/w/.gitignore'' (snd (updateGitignore (cfg_w False) [] (world_of tree_stray [])))"
  by (simp add: ignore_eval)


text \<open>
  C5, amended. The updater is idempotent for every expected set none of whose local
  paths contains the end marker, and every initial content that is empty (or a missing
  file), or contains neither marker, or contains both with the first end marker after
  the first start marker: when the first application succeeds, the content it computes
  is a fixed point of \<open>newContent\<close>, the file holds it, and the second application
  succeeds and leaves the file tree, and so the bytes of the file, as they are.
\<close>

theorem updateGitignore_idempotent:
  assumes "\<forall>p \<in> fst ` set repos. \<not> Contains p gitignoreEnd"
    and "existing = (case os_ReadFile (filepath_Join [Root cfg, ''.gitignore'']) w of Bytes c \<Rightarrow> c | _ \<Rightarrow> [])"
    and "existing = []
       \<or> (\<not> Contains existing gitignoreStart \<and> \<not> Contains existing gitignoreEnd)
       \<or> (\<exists>s e. Index existing gitignoreStart = Some s \<and> Index existing gitignoreEnd = Some e \<and> s < e)"
    and "updateGitignore cfg repos w = (None, w1)"
  shows "newContent (newContent existing (managedBlock repos)) (managedBlock repos)
           = newContent existing (managedBlock repos)
     \<and> os_ReadFile (filepath_Join [Root cfg, ''.gitignore'']) w1
           = Bytes (newContent existing (managedBlock repos))
     \<and> fst (updateGitignore cfg repos w1) = None
     \<and> fs (snd (updateGitignore cfg repos w1)) = fs w1
     \<and> os_ReadFile (filepath_Join [Root cfg, ''.gitignore'']) (snd (updateGitignore cfg repos w1))
           = os_ReadFile (filepath_Join [Root cfg, ''.gitignore'']) w1"
proof -
  let ?p = "filepath_Join [Root cfg, ''.gitignore'']"
  let ?n = "newContent existing (managedBlock repos)"
  have idem: "newContent ?n (managedBlock repos) = ?n"
    using assms(1,3) by (rule newContent_idempotent)
  note wr = updateGitignore_written [OF assms(4,2)]
  have rd: "os_ReadFile ?p w1 = Bytes ?n"
    using wr(2) by (simp add: os_ReadFile_def os_Stat_def)
  have put: "put_file (path_elems ?p) ?n (fs w1) = Some (fs w1)"
    using wr(2) by (rule put_same(1))
  have upd: "updateGitignore cfg repos w1 = (None, w1\<lparr>events := events w1 @ [WriteFile ?p ?n]\<rparr>)"
    using rd idem put wr(1,3) by (simp add: updateGitignore_def os_WriteFile_def Let_def)
  have rd2: "os_ReadFile ?p (w1\<lparr>events := events w1 @ [WriteFile ?p ?n]\<rparr>) = os_ReadFile ?p w1"
    by (simp add: os_ReadFile_def os_Stat_def)
  from idem rd upd rd2 show ?thesis by simp
qed


theorem updateGitignore_idempotent_witness:
  "os_ReadFile ''/w/.gitignore''
      (snd (updateGitignore (cfg_w False) [(''a'', ''github.com/bep/a'')] (world_of tree_ignore [])))
     = Bytes (''node_modules/'' @ [newline, newline] @ managedBlock [(''a'', ''github.com/bep/a'')])
   \<and> fst (updateGitignore (cfg_w False) [(''a'', ''github.com/bep/a'')]
        (snd (updateGitignore (cfg_w False) [(''a'', ''github.com/bep/a'')] (world_of tree_ignore [])))) = None
   \<and> os_ReadFile ''/w/.gitignore''
        (snd (updateGitignore (cfg_w False) [(''a'', ''github.com/bep/a'')]
           (snd (updateGitignore (cfg_w False) [(''a'', ''github.com/bep/a'')] (world_of tree_ignore [])))))
     = Bytes (''node_modules/'' @ [newline, newline] @ managedBlock [(''a'', ''github.com/bep/a'')])"
proof -
  let ?r = "[(''a'', ''github.com/bep/a'')]"
  let ?w = "world_of tree_ignore []"
  let ?w1 = "snd (updateGitignore (cfg_w False) ?r ?w)"
  have p: "filepath_Join [Root (cfg_w False), ''.gitignore''] = ''/w/.gitignore''"
    by (simp add: ignore_eval)
  have h1: "\<forall>p \<in> fst ` set ?r. \<not> Contains p gitignoreEnd"
    by (simp add: ignore_eval)
  have h2: "''node_modules/'' = (case os_ReadFile (filepath_Join [Root (cfg_w False), ''.gitignore'']) ?w of
              Bytes c \<Rightarrow> c | _ \<Rightarrow> [])"
    by (simp add: ignore_eval)
  have h3: "''node_modules/'' = []
       \<or> (\<not> Contains ''node_modules/'' gitignoreStart \<and> \<not> Contains ''node_modules/'' gitignoreEnd)
       \<or> (\<exists>s e. Index ''node_modules/'' gitignoreStart = Some s
                 \<and> Index ''node_modules/'' gitignoreEnd = Some e \<and> s < e)"
    by (simp add: ignore_eval)
  have h4: "updateGitignore (cfg_w False) ?r ?w = (None, ?w1)"
    by (simp add: ignore_eval)
  have n: "newContent ''node_modules/'' (managedBlock ?r)
      = ''node_modules/'' @ [newline, newline] @ managedBlock ?r"
    by (simp add: ignore_eval)
  from updateGitignore_idempotent [OF h1 h2 h3 h4] show ?thesis
    unfolding p n by simp
qed


text \<open>
  C6, as the claim states it, fails: a file can hold both marker lines and still get a
  second block appended, the old region left in place, when an end marker comes before
  the first start marker.
\<close>

theorem newContent_appends_second_block:
  "Contains (gitignoreEnd @ [newline] @ managedBlock [(''a'', ''github.com/bep/a'')]) gitignoreStart
   \<and> Contains (gitignoreEnd @ [newline] @ managedBlock [(''a'', ''github.com/bep/a'')]) gitignoreEnd
   \<and> newContent (gitignoreEnd @ [newline] @ managedBlock [(''a'', ''github.com/bep/a'')]) (managedBlock [])
     = gitignoreEnd @ [newline] @ managedBlock [(''a'', ''github.com/bep/a'')] @ [newline] @ managedBlock []"
  by (simp add: ignore_eval)

text \<open>
  C6, amended. The managed block is the start marker line, the lines \<open>localPath/\<close> of
  the expected local paths in lexicographic order, each ended by a newline, and the end
  marker line. If the bytes read are not empty and hold the first start marker at \<open>s\<close>
  and the first end marker at \<open>e\<close> with \<open>s < e\<close>, the new content is the bytes before
  \<open>s\<close>, the managed block, and the bytes after the end marker and the newline that
  follows it, if any. If the bytes read are not empty and the markers are not found in
  this order, the new content is the bytes read, a newline if they did not end with one,
  an empty line and the managed block. If the file is empty or missing, the new content
  is the managed block alone. \<open>updateGitignore\<close> writes this content.
\<close>

theorem updateGitignore_block:
  "managedBlock repos =
     gitignoreStart @ [newline]
     @ concat (map (\<lambda>p. p @ [newline]) (sort (map (\<lambda>p. p @ ''/'') (map fst repos))))
     @ gitignoreEnd @ [newline]
   \<and> sorted (sort (map (\<lambda>p. p @ ''/'') (map fst repos)))
   \<and> set (sort (map (\<lambda>p. p @ ''/'') (map fst repos))) = (\<lambda>p. p @ ''/'') ` fst ` set repos
   \<and> (existing \<noteq> [] \<and> Index existing gitignoreStart = Some s \<and> Index existing gitignoreEnd = Some e \<and> s < e
      \<longrightarrow> newContent existing managed
          = take s existing @ managed
            @ drop (if e + length gitignoreEnd < length existing
                       \<and> existing ! (e + length gitignoreEnd) = newline
                    then e + length gitignoreEnd + 1 else e + length gitignoreEnd) existing)
   \<and> (existing \<noteq> []
        \<and> \<not> (\<exists>s e. Index existing gitignoreStart = Some s \<and> Index existing gitignoreEnd = Some e \<and> s < e)
      \<longrightarrow> newContent existing managed
          = (if HasSuffix existing [newline] then existing else existing @ [newline])
            @ [newline] @ managed)
   \<and> newContent [] managed = managed
   \<and> (os_ReadFile (filepath_Join [Root cfg, ''.gitignore'']) w = Bytes existing
      \<longrightarrow> updateGitignore cfg repos w
          = os_WriteFile (filepath_Join [Root cfg, ''.gitignore''])
              (newContent existing (managedBlock repos)) w)
   \<and> (os_ReadFile (filepath_Join [Root cfg, ''.gitignore'']) w = ReadNotExist
      \<longrightarrow> updateGitignore cfg repos w
          = os_WriteFile (filepath_Join [Root cfg, ''.gitignore'']) (managedBlock repos) w)"
proof (intro conjI impI; (elim conjE)?)
  show "managedBlock repos =
     gitignoreStart @ [newline]
     @ concat (map (\<lambda>p. p @ [newline]) (sort (map (\<lambda>p. p @ ''/'') (map fst repos))))
     @ gitignoreEnd @ [newline]"
    by (rule managedBlock_shape)
next
  show "sorted (sort (map (\<lambda>p. p @ ''/'') (map fst repos)))"
    by simp
next
  show "set (sort (map (\<lambda>p. p @ ''/'') (map fst repos))) = (\<lambda>p. p @ ''/'') ` fst ` set repos"
    by (simp add: image_image)
next
  assume "existing \<noteq> []" "Index existing gitignoreStart = Some s" "Index existing gitignoreEnd = Some e" "s < e"
  then show "newContent existing managed
          = take s existing @ managed
            @ drop (if e + length gitignoreEnd < length existing
                       \<and> existing ! (e + length gitignoreEnd) = newline
                    then e + length gitignoreEnd + 1 else e + length gitignoreEnd) existing"
    by (rule newContent_replace)
next
  assume "existing \<noteq> []"
    "\<not> (\<exists>s e. Index existing gitignoreStart = Some s \<and> Index existing gitignoreEnd = Some e \<and> s < e)"
  then show "newContent existing managed
          = (if HasSuffix existing [newline] then existing else existing @ [newline])
            @ [newline] @ managed"
    by (rule newContent_append)
next
  show "newContent [] managed = managed"
    by (simp add: newContent_def)
next
  assume "os_ReadFile (filepath_Join [Root cfg, ''.gitignore'']) w = Bytes existing"
  then show "updateGitignore cfg repos w
          = os_WriteFile (filepath_Join [Root cfg, ''.gitignore''])
              (newContent existing (managedBlock repos)) w"
    by (simp add: updateGitignore_def)
next
  assume "os_ReadFile (filepath_Join [Root cfg, ''.gitignore'']) w = ReadNotExist"
  then show "updateGitignore cfg repos w
          = os_WriteFile (filepath_Join [Root cfg, ''.gitignore'']) (managedBlock repos) w"
    by (simp add: updateGitignore_def newContent_def)
qed

theorem updateGitignore_block_witness:
  "newContent (''x'' @ [newline] @ managedBlock [(''old'', ''r'')] @ ''y'') (managedBlock [(''a'', ''r'')])
     = ''x'' @ [newline] @ managedBlock [(''a'', ''r'')] @ ''y''
   \<and> newContent ''node_modules/'' (managedBlock [(''a'', ''r'')])
     = ''node_modules/'' @ [newline, newline] @ managedBlock [(''a'', ''r'')]
   \<and> updateGitignore (cfg_w False) [(''a'', ''r'')] (world_of tree_ignore [])
     = os_WriteFile ''/w/.gitignore'' (newContent ''node_modules/'' (managedBlock [(''a'', ''r'')]))
         (world_of tree_ignore [])
   \<and> updateGitignore (cfg_w False) [(''a'', ''r'')] (world_of tree_a [])
     = os_WriteFile ''/w/.gitignore'' (managedBlock [(''a'', ''r'')]) (world_of tree_a [])"
proof -
  let ?x = "''x'' @ [newline] @ managedBlock [(''old'', ''r'')] @ ''y''"
  let ?m = "managedBlock [(''a'', ''r'')]"
  note T = updateGitignore_block [where repos = "[(''a'', ''r'')]" and managed = ?m and cfg = "cfg_w False"]
  have p: "filepath_Join [Root (cfg_w False), ''.gitignore''] = ''/w/.gitignore''"
    by (simp add: ignore_eval)
  have a1: "?x \<noteq> [] \<and> Index ?x gitignoreStart = Some 2 \<and> Index ?x gitignoreEnd = Some 55 \<and> (2::nat) < 55"
    by (simp add: ignore_eval)
  have a2: "''node_modules/'' \<noteq> []
      \<and> \<not> (\<exists>s e. Index ''node_modules/'' gitignoreStart = Some s
                  \<and> Index ''node_modules/'' gitignoreEnd = Some e \<and> s < e)"
    by (simp add: ignore_eval)
  have a3: "os_ReadFile (filepath_Join [Root (cfg_w False), ''.gitignore'']) (world_of tree_ignore [])
      = Bytes ''node_modules/''"
    by (simp add: ignore_eval)
  have a4: "os_ReadFile (filepath_Join [Root (cfg_w False), ''.gitignore'']) (world_of tree_a [])
      = ReadNotExist"
    by (simp add: ignore_eval tree_a_def)
  note c1 = T [THEN conjunct2, THEN conjunct2, THEN conjunct2, THEN conjunct1, THEN mp, OF a1]
  note c2 = T [THEN conjunct2, THEN conjunct2, THEN conjunct2, THEN conjunct2, THEN conjunct1, THEN mp, OF a2]
  note c3 = T [THEN conjunct2, THEN conjunct2, THEN conjunct2, THEN conjunct2, THEN conjunct2,
      THEN conjunct2, THEN conjunct1, THEN mp, OF a3]
  note c4 = T [THEN conjunct2, THEN conjunct2, THEN conjunct2, THEN conjunct2, THEN conjunct2,
      THEN conjunct2, THEN conjunct2, THEN mp, OF a4]
  have t: "take 2 ?x = ''x'' @ [newline]"
    "drop (if 55 + length gitignoreEnd < length ?x \<and> ?x ! (55 + length gitignoreEnd) = newline
           then 55 + length gitignoreEnd + 1 else 55 + length gitignoreEnd) ?x = ''y''"
    "(if HasSuffix ''node_modules/'' [newline] then ''node_modules/'' else ''node_modules/'' @ [newline])
       = ''node_modules/'' @ [newline]"
    by (simp_all add: ignore_eval)
  from c1 c2 c3 c4 show ?thesis
    unfolding p t by simp
qed

subsection \<open>The repositories that no manifest lists\<close>

lemma processRepo_existing:
  "processRepo git cfg False lp rp (res, ex, w) = (e, res', ex', w') \<Longrightarrow> ex' = insert lp ex"
  by (auto simp: processRepo_def Let_def split: stat.splits prod.splits option.splits sum.splits if_splits)

lemma runWorkers_existing:
  "runWorkers git cfg late ps None (res, ex, w) = (None, res', ex', w') \<Longrightarrow> ex' = ex \<union> fst ` set ps"
proof (induction ps arbitrary: late res ex w)
  case Nil
  then show ?case by simp
next
  case (Cons p ps)
  obtain lp rp where p: "p = (lp, rp)" by (cases p)
  obtain e r1 x1 w1 where s: "processRepo git cfg False lp rp (res, ex, w) = (e, r1, x1, w1)"
    by (metis prod_cases4)
  show ?case
  proof (cases e)
    case None
    with Cons.prems p s have "runWorkers git cfg (tl late) ps None (r1, x1, w1) = (None, res', ex', w')"
      by simp
    from Cons.IH [OF this] processRepo_existing [OF s] p show ?thesis by auto
  next
    case (Some a)
    with Cons.prems p s have "runWorkers git cfg (tl late) ps (Some a) (r1, x1, w1) = (None, res', ex', w')"
      by simp
    with runWorkers_error_kept [of "Some a" git cfg "tl late" ps "(r1, x1, w1)"] show ?thesis
      by simp
  qed
qed

lemma syncRepo2_existing:
  "syncRepo2 git cfg (res, ex, w) (lp, rp) = (res', ex', w') \<Longrightarrow> ex' = insert lp ex"
  by (auto simp: syncRepo2_def Let_def split: stat.splits prod.splits option.splits sum.splits if_splits)

lemma syncLoop2_existing:
  "foldl (syncRepo2 git cfg) (res, ex, w) ps = (res', ex', w') \<Longrightarrow> ex' = ex \<union> fst ` set ps"
proof (induction ps arbitrary: res ex w)
  case Nil
  then show ?case by simp
next
  case (Cons p ps)
  obtain lp rp where p: "p = (lp, rp)" by (cases p)
  obtain r1 x1 w1 where s: "syncRepo2 git cfg (res, ex, w) (lp, rp) = (r1, x1, w1)"
    by (metis prod_cases3)
  with Cons.prems p have "foldl (syncRepo2 git cfg) (r1, x1, w1) ps = (res', ex', w')" by simp
  from Cons.IH [OF this] syncRepo2_existing [OF s] p show ?case by auto
qed

lemma os_RemoveAll_world:
  "os_RemoveAll p w = (e, w1) \<Longrightarrow>
     refuse_remove w1 = refuse_remove w \<and> events w1 = events w @ [RemoveAll p]
     \<and> e = map_option fst (refuse_remove w p)
     \<and> (e = None \<longrightarrow> fs w1 = remove_at (path_elems p) (fs w))"
  by (auto simp: os_RemoveAll_def Let_def split: option.splits prod.splits)

text \<open>The loop of the first listing when every removal succeeds, and when one fails.\<close>

lemma sweep_all_removed:
  "\<forall>r \<in> set rs. r \<notin> existing \<longrightarrow> refuse_remove w (filepath_Join [Root cfg, r]) = None \<Longrightarrow>
   sweep cfg existing rs res w = (err, res', w') \<Longrightarrow>
     err = None
     \<and> res' = res\<lparr>Removed := Removed res @ filter (\<lambda>r. r \<notin> existing) rs\<rparr>
     \<and> events w' = events w
          @ map (\<lambda>r. RemoveAll (filepath_Join [Root cfg, r])) (filter (\<lambda>r. r \<notin> existing) rs)"
proof (induction rs arbitrary: res w)
  case Nil
  then show ?case by simp
next
  case (Cons r rs)
  show ?case
  proof (cases "r \<in> existing")
    case True
    with Cons show ?thesis by simp
  next
    case False
    obtain e w1 where o: "os_RemoveAll (filepath_Join [Root cfg, r]) w = (e, w1)" by fastforce
    note ow = os_RemoveAll_world [OF o]
    from False Cons.prems(1) ow have e: "e = None" by simp
    with False Cons.prems(2) o
    have s: "sweep cfg existing rs (res\<lparr>Removed := Removed res @ [r]\<rparr>) w1 = (err, res', w')"
      by (simp add: Let_def)
    have "\<forall>r \<in> set rs. r \<notin> existing \<longrightarrow> refuse_remove w1 (filepath_Join [Root cfg, r]) = None"
      using Cons.prems(1) ow by simp
    from Cons.IH [OF this s] ow False show ?thesis by simp
  qed
qed

lemma sweep_stops:
  "filter (\<lambda>r. r \<notin> existing) rs = oks @ r # rest \<Longrightarrow>
   \<forall>q \<in> set oks. refuse_remove w (filepath_Join [Root cfg, q]) = None \<Longrightarrow>
   refuse_remove w (filepath_Join [Root cfg, r]) = Some (e, gone) \<Longrightarrow>
   sweep cfg existing rs res w = (err, res', w') \<Longrightarrow>
     err = Some (''remove '' @ r @ '': '' @ e)
     \<and> res' = res\<lparr>Removed := Removed res @ oks\<rparr>
     \<and> events w' = events w @ map (\<lambda>r. RemoveAll (filepath_Join [Root cfg, r])) (oks @ [r])"
proof (induction rs arbitrary: oks res w)
  case Nil
  then show ?case by simp
next
  case (Cons r0 rs)
  show ?case
  proof (cases "r0 \<in> existing")
    case True
    with Cons.prems have "filter (\<lambda>r. r \<notin> existing) rs = oks @ r # rest"
      "sweep cfg existing rs res w = (err, res', w')"
      by simp_all
    from Cons.IH [OF this(1) Cons.prems(2,3) this(2)] show ?thesis .
  next
    case False
    obtain e0 w1 where o: "os_RemoveAll (filepath_Join [Root cfg, r0]) w = (e0, w1)" by fastforce
    note ow = os_RemoveAll_world [OF o]
    from False Cons.prems(1) have f: "r0 # filter (\<lambda>r. r \<notin> existing) rs = oks @ r # rest"
      by simp
    show ?thesis
    proof (cases oks)
      case Nil
      with f have r0: "r0 = r" by simp
      with Cons.prems(3) ow have e0: "e0 = Some e" by simp
      have ev1: "events w1 = events w @ [RemoveAll (filepath_Join [Root cfg, r0])]"
        using ow by simp
      from False Cons.prems(4) o [unfolded e0]
      have "err = Some (''remove '' @ r0 @ '': '' @ e) \<and> res' = res \<and> w' = w1"
        by (simp add: Let_def)
      with ev1 Nil r0 show ?thesis by simp
    next
      case (Cons q oks')
      with f have q: "q = r0" and f': "filter (\<lambda>r. r \<notin> existing) rs = oks' @ r # rest"
        by simp_all
      from Cons.prems(2) Cons q ow have e0: "e0 = None" by simp
      with False Cons.prems(4) o
      have s: "sweep cfg existing rs (res\<lparr>Removed := Removed res @ [r0]\<rparr>) w1 = (err, res', w')"
        by (simp add: Let_def)
      have a: "\<forall>q \<in> set oks'. refuse_remove w1 (filepath_Join [Root cfg, q]) = None"
        using Cons.prems(2) Cons ow by simp
      have b: "refuse_remove w1 (filepath_Join [Root cfg, r]) = Some (e, gone)"
        using Cons.prems(3) ow by simp
      from Cons.IH [OF f' a b s] ow Cons q show ?thesis by simp
    qed
  qed
qed

lemma sweep2_removed:
  "sweep2 cfg existing rs res w = (res', w') \<Longrightarrow>
     res' = res\<lparr>Removed := Removed res
                @ filter (\<lambda>r. r \<notin> existing \<and> refuse_remove w (filepath_Join [Root cfg, r]) = None) rs,
              Warnings := Warnings res
                @ map (\<lambda>r. ''remove failed: '' @ r @ '': ''
                             @ fst (the (refuse_remove w (filepath_Join [Root cfg, r]))))
                    (filter (\<lambda>r. r \<notin> existing \<and> refuse_remove w (filepath_Join [Root cfg, r]) \<noteq> None) rs)\<rparr>
     \<and> events w' = events w
          @ map (\<lambda>r. RemoveAll (filepath_Join [Root cfg, r])) (filter (\<lambda>r. r \<notin> existing) rs)
     \<and> refuse_remove w' = refuse_remove w"
proof (induction rs arbitrary: res w)
  case Nil
  then show ?case by simp
next
  case (Cons r rs)
  show ?case
  proof (cases "r \<in> existing")
    case True
    with Cons show ?thesis by simp
  next
    case False
    obtain e w1 where o: "os_RemoveAll (filepath_Join [Root cfg, r]) w = (e, w1)" by fastforce
    note ow = os_RemoveAll_world [OF o]
    show ?thesis
    proof (cases e)
      case None
      with False Cons.prems o
      have "sweep2 cfg existing rs (res\<lparr>Removed := Removed res @ [r]\<rparr>) w1 = (res', w')"
        by (simp add: Let_def)
      note ih = Cons.IH [OF this]
      have "refuse_remove w (filepath_Join [Root cfg, r]) = None"
        using ow None by simp
      with ih ow False show ?thesis by simp
    next
      case (Some x)
      with False Cons.prems o
      have "sweep2 cfg existing rs
              (res\<lparr>Warnings := Warnings res @ [''remove failed: '' @ r @ '': '' @ x]\<rparr>) w1 = (res', w')"
        by (simp add: Let_def)
      note ih = Cons.IH [OF this]
      obtain g where "refuse_remove w (filepath_Join [Root cfg, r]) = Some (x, g)"
        using ow Some by (cases "refuse_remove w (filepath_Join [Root cfg, r])") auto
      with ih ow False show ?thesis by simp
    qed
  qed
qed

lemma removed_gone:
  "ks \<noteq> [] \<Longrightarrow> lstat (ks @ ms) (remove_at ks t) \<noteq> Found n"
  "lstat_in k (ks @ ms) (remove_in k ks es) \<noteq> Found n"
proof (induction ks t and k ks es arbitrary: n and n rule: remove_at_remove_in.induct)
  case (6 k ks k' m es)
  then show ?case by (cases ks) auto
qed auto

lemma syncPlain_Removed:
  "syncPlain git full lp d c dirty res w = (e, res', w') \<Longrightarrow> Removed res' = Removed res"
  by (auto simp: syncPlain_def Let_def split: prod.splits sum.splits if_splits)

lemma syncForce_Removed:
  "syncForce git full lp d c dirty res w = (e, res', w') \<Longrightarrow> Removed res' = Removed res"
  by (auto simp: syncForce_def Let_def split: prod.splits sum.splits option.splits if_splits)

lemma processRepo_Removed:
  "processRepo git cfg b lp rp (res, ex, w) = (e, res', ex', w') \<Longrightarrow> Removed res' = Removed res"
  by (auto simp: processRepo_def Let_def
      split: stat.splits prod.splits option.splits sum.splits if_splits
      dest: syncPlain_Removed syncForce_Removed)

lemma runWorkers_Removed:
  "runWorkers git cfg late ps err (res, ex, w) = (e, res', ex', w') \<Longrightarrow> Removed res' = Removed res"
proof (induction ps arbitrary: late err res ex w)
  case Nil
  then show ?case by simp
next
  case (Cons p ps)
  obtain lp rp where p: "p = (lp, rp)" by (cases p)
  define cancelled where "cancelled = (err \<noteq> None \<and> (case late of [] \<Rightarrow> True | l # x \<Rightarrow> l))"
  obtain e1 r1 x1 w1 where s: "processRepo git cfg cancelled lp rp (res, ex, w) = (e1, r1, x1, w1)"
    by (metis prod_cases4)
  with Cons.prems p
  have "runWorkers git cfg (tl late) ps (if err = None then e1 else err) (r1, x1, w1) = (e, res', ex', w')"
    by (simp add: cancelled_def Let_def)
  from Cons.IH [OF this] processRepo_Removed [OF s] show ?case by simp
qed

lemma syncPlain2_Removed:
  "syncPlain2 git full lp d c dirty res w = (res', w') \<Longrightarrow> Removed res' = Removed res"
  by (auto simp: syncPlain2_def Let_def split: prod.splits sum.splits if_splits)

lemma syncForce2_Removed:
  "syncForce2 git full lp d c dirty res w = (res', w') \<Longrightarrow> Removed res' = Removed res"
  by (auto simp: syncForce2_def Let_def split: prod.splits sum.splits option.splits if_splits)

lemma syncRepo2_Removed:
  "syncRepo2 git cfg (res, ex, w) (lp, rp) = (res', ex', w') \<Longrightarrow> Removed res' = Removed res"
  by (auto simp: syncRepo2_def Let_def
      split: stat.splits prod.splits option.splits sum.splits if_splits
      dest: syncPlain2_Removed syncForce2_Removed)

lemma syncLoop2_Removed:
  "foldl (syncRepo2 git cfg) (res, ex, w) ps = (res', ex', w') \<Longrightarrow> Removed res' = Removed res"
proof (induction ps arbitrary: res ex w)
  case Nil
  then show ?case by simp
next
  case (Cons p ps)
  obtain lp rp where p: "p = (lp, rp)" by (cases p)
  obtain r1 x1 w1 where s: "syncRepo2 git cfg (res, ex, w) (lp, rp) = (r1, x1, w1)"
    by (metis prod_cases3)
  with Cons.prems p have "foldl (syncRepo2 git cfg) (r1, x1, w1) ps = (res', ex', w')" by simp
  from Cons.IH [OF this] syncRepo2_Removed [OF s] show ?case by simp
qed

lemma updateGitignore_events:
  "updateGitignore cfg repos w = (e, w') \<Longrightarrow>
     events w' = events w
     \<or> (\<exists>c. events w' = events w @ [WriteFile (filepath_Join [Root cfg, ''.gitignore'']) c])"
  by (auto simp: updateGitignore_def os_WriteFile_def Let_def split: readres.splits option.splits)


text \<open>
  C8, as the claim states it, fails: the walk finds the checkouts inside a checkout too,
  and the removal of a checkout that is not expected takes with it an expected checkout
  inside it, here \<open>a/b\<close>, which has just been synchronised.
\<close>

theorem sweep_deletes_nested_expected_checkout:
  "collectExpectedRepos literal (cfg_w False) (world_of tree_nested script_clean)
     = Inr [(''a/b'', ''github.com/bep/b'')]
   \<and> os_Stat ''/w/a/b'' (world_of tree_nested script_clean) = Found (Dir [(''.git'', Dir [])])
   \<and> fst (run scripted literal (cfg_w False) [] [] (world_of tree_nested script_clean))
     = (Result0\<lparr>Removed := [''a'']\<rparr>, None)
   \<and> os_Stat ''/w/a/b'' (snd (run scripted literal (cfg_w False) [] [] (world_of tree_nested script_clean)))
     = NotExist
   \<and> fst (run2 scripted literal (cfg_w False) [] (world_of tree_nested script_clean))
     = (Result0\<lparr>Removed := [''a'']\<rparr>, None)
   \<and> os_Stat ''/w/a/b'' (snd (run2 scripted literal (cfg_w False) [] (world_of tree_nested script_clean)))
     = NotExist"
  by (simp add: sync_eval walk_eval path_eval git_eval ignore_eval os_RemoveAll_def
      tree_nested_def script_clean_def)


text \<open>
  C8, amended. After the synchronisation, for the checkouts \<open>allRepos\<close> that the walk
  finds under the root, in the order of the walk, the orphans are those whose relative
  path is not a key of the expected set: \<open>os.RemoveAll\<close> is called for orphans only, in
  this order, so never for an expected path, cloned in the same run or not. In the first
  listing, when no removal fails, every orphan is removed and the orphans are the Removed
  list (the only error left is that of the ignore file); the first removal that fails
  ends the run with the error \<open>remove <path>: ...\<close>, the Removed list holds the orphans
  before it, and no orphan after it is touched. In the second listing a removal that
  fails appends the warning \<open>remove failed: <path>: ...\<close>, the loop goes on, \<open>run\<close>
  returns no error, and the Removed list holds the orphans whose removal has succeeded.
  A removal that succeeds leaves nothing at the path nor below it: an expected checkout
  inside a removed one is deleted with it.
\<close>

theorem orphan_sweep:
  "(collectExpectedRepos match cfg w = Inr expected
      \<and> runWorkers git cfg late (pickOrder order expected) None (Result0, {}, w) = (None, res1, ex1, w1)
      \<and> findAllGitRepos cfg w1 = Inr allRepos
      \<and> run git match cfg order late w = ((res, err), w')
    \<longrightarrow> ((\<forall>r \<in> set (filter (\<lambda>r. r \<notin> fst ` set expected) allRepos).
             refuse_remove w1 (filepath_Join [Root cfg, r]) = None)
          \<longrightarrow> Removed res = filter (\<lambda>r. r \<notin> fst ` set expected) allRepos
              \<and> (err = None \<or> (\<exists>e. err = Some (''update .gitignore: '' @ e)))
              \<and> (\<exists>rest. events w' = events w1
                    @ map (\<lambda>r. RemoveAll (filepath_Join [Root cfg, r]))
                        (filter (\<lambda>r. r \<notin> fst ` set expected) allRepos)
                    @ rest
                  \<and> (\<forall>p. RemoveAll p \<notin> set rest)))
        \<and> (filter (\<lambda>r. r \<notin> fst ` set expected) allRepos = oks @ r # rest
            \<and> (\<forall>q \<in> set oks. refuse_remove w1 (filepath_Join [Root cfg, q]) = None)
            \<and> refuse_remove w1 (filepath_Join [Root cfg, r]) = Some (e, gone)
          \<longrightarrow> Removed res = oks
              \<and> err = Some (''remove '' @ r @ '': '' @ e)
              \<and> events w' = events w1
                    @ map (\<lambda>r. RemoveAll (filepath_Join [Root cfg, r])) (oks @ [r])))
   \<and> (collectExpectedRepos match cfg w = Inr expected
      \<and> foldl (syncRepo2 git cfg) (Result0, {}, w) (pickOrder order expected) = (res1, ex1, w1)
      \<and> findAllGitRepos cfg w1 = Inr allRepos
      \<and> run2 git match cfg order w = ((res, err), w')
    \<longrightarrow> err = None
        \<and> Removed res =
            filter (\<lambda>r. r \<notin> fst ` set expected
                        \<and> refuse_remove w1 (filepath_Join [Root cfg, r]) = None) allRepos
        \<and> Warnings res = Warnings res1
            @ map (\<lambda>r. ''remove failed: '' @ r @ '': ''
                         @ fst (the (refuse_remove w1 (filepath_Join [Root cfg, r]))))
                (filter (\<lambda>r. r \<notin> fst ` set expected
                             \<and> refuse_remove w1 (filepath_Join [Root cfg, r]) \<noteq> None) allRepos)
        \<and> events w' = events w1
              @ map (\<lambda>r. RemoveAll (filepath_Join [Root cfg, r]))
                  (filter (\<lambda>r. r \<notin> fst ` set expected) allRepos))
   \<and> (os_RemoveAll p w = (None, w2) \<and> path_elems p \<noteq> []
    \<longrightarrow> fs w2 = remove_at (path_elems p) (fs w)
        \<and> (\<forall>below n. lstat (path_elems p @ below) (fs w2) \<noteq> Found n))"
proof (intro conjI impI; (elim conjE)?)
  assume c: "collectExpectedRepos match cfg w = Inr expected"
    and r: "runWorkers git cfg late (pickOrder order expected) None (Result0, {}, w) = (None, res1, ex1, w1)"
    and f: "findAllGitRepos cfg w1 = Inr allRepos"
    and u: "run git match cfg order late w = ((res, err), w')"
    and ok: "\<forall>r \<in> set (filter (\<lambda>r. r \<notin> fst ` set expected) allRepos).
             refuse_remove w1 (filepath_Join [Root cfg, r]) = None"
  have ex: "ex1 = fst ` set expected"
    using runWorkers_existing [OF r] by (simp add: pickOrder_set)
  have rm: "Removed res1 = []" using runWorkers_Removed [OF r] by (simp add: Result0_def)
  obtain se r2 w2 where s: "sweep cfg ex1 allRepos res1 w1 = (se, r2, w2)"
    by (metis prod_cases3)
  have ok': "\<forall>r \<in> set allRepos. r \<notin> ex1 \<longrightarrow> refuse_remove w1 (filepath_Join [Root cfg, r]) = None"
    using ok ex by simp
  note sr = sweep_all_removed [OF ok' s]
  obtain ge w3 where g: "updateGitignore cfg expected w2 = (ge, w3)" by fastforce
  from u c r f s sr g have res: "res = r2" and w': "w' = w3"
    and err: "err = (case ge of Some e \<Rightarrow> Some (''update .gitignore: '' @ e) | None \<Rightarrow> None)"
    by (auto simp: run_def split: option.splits)
  show "Removed res = filter (\<lambda>r. r \<notin> fst ` set expected) allRepos"
    using res sr rm ex by simp
  show "err = None \<or> (\<exists>e. err = Some (''update .gitignore: '' @ e))"
    using err by (cases ge) simp_all
  from updateGitignore_events [OF g]
  have "\<exists>rest. events w3 = events w2 @ rest \<and> (\<forall>p. RemoveAll p \<notin> set rest)"
    by auto
  then show "\<exists>rest. events w' = events w1
                    @ map (\<lambda>r. RemoveAll (filepath_Join [Root cfg, r]))
                        (filter (\<lambda>r. r \<notin> fst ` set expected) allRepos)
                    @ rest
                  \<and> (\<forall>p. RemoveAll p \<notin> set rest)"
    using sr ex w' by auto
next
  assume c: "collectExpectedRepos match cfg w = Inr expected"
    and r: "runWorkers git cfg late (pickOrder order expected) None (Result0, {}, w) = (None, res1, ex1, w1)"
    and f: "findAllGitRepos cfg w1 = Inr allRepos"
    and u: "run git match cfg order late w = ((res, err), w')"
    and sp: "filter (\<lambda>r. r \<notin> fst ` set expected) allRepos = oks @ r # rest"
    and ok: "\<forall>q \<in> set oks. refuse_remove w1 (filepath_Join [Root cfg, q]) = None"
    and no: "refuse_remove w1 (filepath_Join [Root cfg, r]) = Some (e, gone)"
  have ex: "ex1 = fst ` set expected"
    using runWorkers_existing [OF r] by (simp add: pickOrder_set)
  have rm: "Removed res1 = []" using runWorkers_Removed [OF r] by (simp add: Result0_def)
  obtain se r2 w2 where s: "sweep cfg ex1 allRepos res1 w1 = (se, r2, w2)"
    by (metis prod_cases3)
  note sr = sweep_stops [OF sp [folded ex] ok no s]
  from u c r f s sr have res: "res = r2" and w': "w' = w2" and err: "err = se"
    by (auto simp: run_def)
  show "Removed res = oks" using res sr rm by simp
  show "err = Some (''remove '' @ r @ '': '' @ e)" using err sr by simp
  show "events w' = events w1 @ map (\<lambda>r. RemoveAll (filepath_Join [Root cfg, r])) (oks @ [r])"
    using w' sr by simp
next
  assume c: "collectExpectedRepos match cfg w = Inr expected"
    and r: "foldl (syncRepo2 git cfg) (Result0, {}, w) (pickOrder order expected) = (res1, ex1, w1)"
    and f: "findAllGitRepos cfg w1 = Inr allRepos"
    and u: "run2 git match cfg order w = ((res, err), w')"
  have ex: "ex1 = fst ` set expected"
    using syncLoop2_existing [OF r] by (simp add: pickOrder_set)
  have rm: "Removed res1 = []" using syncLoop2_Removed [OF r] by (simp add: Result0_def)
  have s: "sweep2 cfg ex1 allRepos res1 w1 = (res, w')" and e: "err = None"
    using u c r f by (auto simp: run2_def split: prod.splits)
  show "err = None" by (rule e)
  from sweep2_removed [OF s] rm ex
  show "Removed res =
            filter (\<lambda>r. r \<notin> fst ` set expected
                        \<and> refuse_remove w1 (filepath_Join [Root cfg, r]) = None) allRepos"
    by simp
  from sweep2_removed [OF s] ex
  show "Warnings res = Warnings res1
            @ map (\<lambda>r. ''remove failed: '' @ r @ '': ''
                         @ fst (the (refuse_remove w1 (filepath_Join [Root cfg, r]))))
                (filter (\<lambda>r. r \<notin> fst ` set expected
                             \<and> refuse_remove w1 (filepath_Join [Root cfg, r]) \<noteq> None) allRepos)"
    by simp
  from sweep2_removed [OF s] ex
  show "events w' = events w1
              @ map (\<lambda>r. RemoveAll (filepath_Join [Root cfg, r]))
                  (filter (\<lambda>r. r \<notin> fst ` set expected) allRepos)"
    by simp
next
  assume o: "os_RemoveAll p w = (None, w2)" and ne: "path_elems p \<noteq> []"
  from os_RemoveAll_world [OF o] show fs2: "fs w2 = remove_at (path_elems p) (fs w)" by simp
  show "\<forall>below n. lstat (path_elems p @ below) (fs w2) \<noteq> Found n"
    unfolding fs2 using removed_gone(1) [OF ne] by blast
qed

theorem orphan_sweep_witness:
  "Removed (fst (fst (run scripted literal (cfg_w False) [] [] (world_of tree_nested script_clean))))
     = [''a'']
   \<and> Removed (fst (fst (run scripted literal (cfg_w False) [] []
         (refusing ''/w/a'' ''unlinkat /w/a: permission denied'' (world_of tree_nested script_clean)))))
     = []
   \<and> snd (fst (run scripted literal (cfg_w False) [] []
         (refusing ''/w/a'' ''unlinkat /w/a: permission denied'' (world_of tree_nested script_clean))))
     = Some ''remove a: unlinkat /w/a: permission denied''
   \<and> snd (fst (run2 scripted literal (cfg_w False) []
         (refusing ''/w/a'' ''unlinkat /w/a: permission denied'' (world_of tree_nested script_clean))))
     = None
   \<and> Removed (fst (fst (run2 scripted literal (cfg_w False) []
         (refusing ''/w/a'' ''unlinkat /w/a: permission denied'' (world_of tree_nested script_clean)))))
     = []
   \<and> Warnings (fst (fst (run2 scripted literal (cfg_w False) []
         (refusing ''/w/a'' ''unlinkat /w/a: permission denied'' (world_of tree_nested script_clean)))))
     = [''remove failed: a: unlinkat /w/a: permission denied'']
   \<and> fs (snd (os_RemoveAll ''/w/a'' (world_of tree_nested []))) = Dir [(''w'', Dir [])]
   \<and> (\<forall>below n. lstat ([''w'', ''a''] @ below) (fs (snd (os_RemoveAll ''/w/a'' (world_of tree_nested []))))
         \<noteq> Found n)"
proof -
  note ev = sync_eval walk_eval path_eval git_eval ignore_eval os_RemoveAll_def refusing_def
    tree_nested_def script_clean_def
  let ?w = "world_of tree_nested script_clean"
  let ?v = "refusing ''/w/a'' ''unlinkat /w/a: permission denied'' ?w"
  let ?c = "cfg_w False"
  let ?x = "[(''a/b'', ''github.com/bep/b'')]"
  let ?rw = "runWorkers scripted ?c [] (pickOrder [] ?x) None (Result0, {}, ?w)"
  let ?rv = "runWorkers scripted ?c [] (pickOrder [] ?x) None (Result0, {}, ?v)"
  let ?fv = "foldl (syncRepo2 scripted ?c) (Result0, {}, ?v) (pickOrder [] ?x)"
  let ?R = "run scripted literal ?c [] [] ?w"
  let ?S = "run scripted literal ?c [] [] ?v"
  let ?T = "run2 scripted literal ?c [] ?v"
  note T = orphan_sweep [where git = scripted and match = literal and cfg = ?c and order = "[]"
      and expected = ?x and allRepos = "[''a'', ''a/b'']"]
  have a1: "collectExpectedRepos literal ?c ?w = Inr ?x
      \<and> ?rw = (None, fst (snd ?rw), fst (snd (snd ?rw)), snd (snd (snd ?rw)))
      \<and> findAllGitRepos ?c (snd (snd (snd ?rw))) = Inr [''a'', ''a/b'']
      \<and> ?R = ((fst (fst ?R), snd (fst ?R)), snd ?R)"
    by (simp add: ev)
  have b1: "\<forall>r \<in> set (filter (\<lambda>r. r \<notin> fst ` set ?x) [''a'', ''a/b'']).
      refuse_remove (snd (snd (snd ?rw))) (filepath_Join [Root ?c, r]) = None"
    by (simp add: ev)
  note c1 = T [where late = "[]" and w = ?w, THEN conjunct1, THEN mp, OF a1, THEN conjunct1, THEN mp, OF b1,
      THEN conjunct1]
  have a2: "collectExpectedRepos literal ?c ?v = Inr ?x
      \<and> ?rv = (None, fst (snd ?rv), fst (snd (snd ?rv)), snd (snd (snd ?rv)))
      \<and> findAllGitRepos ?c (snd (snd (snd ?rv))) = Inr [''a'', ''a/b'']
      \<and> ?S = ((fst (fst ?S), snd (fst ?S)), snd ?S)"
    by (simp add: ev)
  have b2: "filter (\<lambda>r. r \<notin> fst ` set ?x) [''a'', ''a/b''] = [] @ ''a'' # []
      \<and> (\<forall>q \<in> set []. refuse_remove (snd (snd (snd ?rv))) (filepath_Join [Root ?c, q]) = None)
      \<and> refuse_remove (snd (snd (snd ?rv))) (filepath_Join [Root ?c, ''a''])
          = Some (''unlinkat /w/a: permission denied'', [])"
    by (simp add: ev)
  note c2 = T [where late = "[]" and w = ?v and oks = "[]" and r = "''a''" and rest = "[]",
      THEN conjunct1, THEN mp, OF a2, THEN conjunct2, THEN mp, OF b2]
  have a3: "collectExpectedRepos literal ?c ?v = Inr ?x
      \<and> ?fv = (fst ?fv, fst (snd ?fv), snd (snd ?fv))
      \<and> findAllGitRepos ?c (snd (snd ?fv)) = Inr [''a'', ''a/b'']
      \<and> ?T = ((fst (fst ?T), snd (fst ?T)), snd ?T)"
    by (simp add: ev)
  note c3 = T [where w = ?v, THEN conjunct2, THEN conjunct1, THEN mp, OF a3]
  have a4: "os_RemoveAll ''/w/a'' (world_of tree_nested [])
        = (None, snd (os_RemoveAll ''/w/a'' (world_of tree_nested [])))
      \<and> path_elems ''/w/a'' \<noteq> []"
    by (simp add: ev)
  note c4 = orphan_sweep [THEN conjunct2, THEN conjunct2, THEN mp, OF a4]
  have r: "refuse_remove (snd (snd ?fv)) = refuse_remove ?v"
    "Warnings (fst ?fv) = []" "Root ?c = ''/w''" "filepath_Join [''/w'', ''a''] = ''/w/a''"
    "filepath_Join [''/w'', ''a/b''] = ''/w/a/b''"
    "path_elems ''/w/a'' = [''w'', ''a'']"
    "remove_at [''w'', ''a''] (fs (world_of tree_nested [])) = Dir [(''w'', Dir [])]"
    by (simp_all add: ev)
  from c1 c2 c3 c4 show ?thesis
    unfolding r(1,2) by (simp add: refusing_def r(3-))
qed


end
